theory Spec2Isabelle
  imports Main "HOL-Library.Multiset"
begin

section \<open>The relational store (server/database/database.js)\<close>

text \<open>
  The two tables of \<^verbatim>\<open>initializeDatabase\<close>. A row is a record; a table is the list
  of its rows in insertion order. Timestamps are natural numbers, and every route takes
  the current time \<open>now\<close> where the SQL says \<^verbatim>\<open>CURRENT_TIMESTAMP\<close>.
  \<^verbatim>\<open>email TEXT UNIQUE\<close> is nullable, so it is an option; \<^verbatim>\<open>address_line2\<close> and
  \<^verbatim>\<open>country\<close> are nullable in the DDL, but every INSERT and UPDATE of the routes binds
  a string (\<^verbatim>\<open>address_line2 || ''\<close>, \<^verbatim>\<open>country || 'India'\<close>), so they are strings.
\<close>

record customer =
  c_id :: nat
  c_first_name :: string
  c_last_name :: string
  c_phone_number :: string
  c_email :: "string option"
  c_created_at :: nat
  c_updated_at :: nat
  has_multiple_addresses :: bool
  only_one_address :: bool

record address =
  a_id :: nat
  customer_id :: nat
  address_line1 :: string
  address_line2 :: string
  city :: string
  state :: string
  pin_code :: string
  country :: string
  is_primary :: bool
  a_created_at :: nat
  a_updated_at :: nat

text \<open>
  The connection. \<open>customers_seq\<close> and \<open>addresses_seq\<close> are the \<^verbatim>\<open>sqlite_sequence\<close>
  entries that \<^verbatim>\<open>AUTOINCREMENT\<close> keeps. \<open>foreign_keys\<close> is the connection's
  \<^verbatim>\<open>PRAGMA foreign_keys\<close>: SQLite enforces a \<^verbatim>\<open>FOREIGN KEY ... ON DELETE CASCADE\<close>
  clause only on a connection that has switched the pragma on, and it is off when a
  connection is opened. database.js opens the connection with
  \<^verbatim>\<open>new sqlite3.Database(dbPath)\<close> and no statement of the repository sets the
  pragma, so the server runs with \<open>foreign_keys = False\<close>; the field is kept so that
  the statements below say what they do in either mode.
\<close>

record db =
  customers :: "customer list"
  addresses :: "address list"
  customers_seq :: nat
  addresses_seq :: nat
  foreign_keys :: bool

definition init_db :: db where
  "init_db = \<lparr>customers = [], addresses = [], customers_seq = 0, addresses_seq = 0,
     foreign_keys = False\<rparr>"

text \<open>
  \<^verbatim>\<open>INTEGER PRIMARY KEY AUTOINCREMENT\<close>: the new rowid is one more than the largest
  rowid the table has ever held (the larger of the stored sequence and the rowids present).
\<close>

definition next_rowid :: "nat \<Rightarrow> nat list \<Rightarrow> nat" where
  "next_rowid seq ids = Suc (fold max ids seq)"

subsection \<open>Request bodies\<close>

text \<open>
  A JSON body: every field may be absent (\<open>None\<close>, JavaScript's \<^verbatim>\<open>undefined\<close>, which
  the driver binds as NULL). \<open>is_primary\<close> is a JSON boolean and \<open>customer_id\<close> a number,
  as the client sends them (AddressForm.js: \<^verbatim>\<open>parseInt(data.customer_id)\<close>,
  \<^verbatim>\<open>Boolean(data.is_primary)\<close>). The same record is an entry of the \<^verbatim>\<open>addresses\<close>
  array of a customer body, where nothing validates it and \<open>p_customer_id\<close> is not read.
\<close>

record addr_payload =
  p_customer_id :: "nat option"
  p_address_line1 :: "string option"
  p_address_line2 :: "string option"
  p_city :: "string option"
  p_state :: "string option"
  p_pin_code :: "string option"
  p_country :: "string option"
  p_is_primary :: "bool option"

record customer_body =
  first_name :: "string option"
  last_name :: "string option"
  phone_number :: "string option"
  email :: "string option"
  addresses_in :: "addr_payload list option"

record response =
  status :: nat
  message :: string
  data_id :: "nat option"

definition reply :: "nat \<Rightarrow> string \<Rightarrow> response" where
  "reply st m = \<lparr>status = st, message = m, data_id = None\<rparr>"

definition reply_id :: "nat \<Rightarrow> string \<Rightarrow> nat \<Rightarrow> response" where
  "reply_id st m i = \<lparr>status = st, message = m, data_id = Some i\<rparr>"

subsection \<open>JavaScript values and express-validator\<close>

text \<open>The validators see a missing field as the empty string.\<close>

definition toString :: "string option \<Rightarrow> string" where
  "toString v = (case v of None \<Rightarrow> [] | Some x \<Rightarrow> x)"

text \<open>\<^verbatim>\<open>x || d\<close> on a string: \<^verbatim>\<open>undefined\<close> and \<^verbatim>\<open>''\<close> are falsy.\<close>

definition or_default :: "string option \<Rightarrow> string \<Rightarrow> string" where
  "or_default v d = (case v of None \<Rightarrow> d | Some x \<Rightarrow> if x = [] then d else x)"

text \<open>\<^verbatim>\<open>if (is_primary)\<close> and \<^verbatim>\<open>is_primary || false\<close> on a boolean.\<close>

definition truthy :: "bool option \<Rightarrow> bool" where
  "truthy v = (case v of None \<Rightarrow> False | Some x \<Rightarrow> x)"

text \<open>
  The library's \<^verbatim>\<open>trim()\<close> strips JavaScript whitespace. A \<open>char\<close> stands for a
  code unit below 256, where the whitespace characters are tab, line feed, vertical tab,
  form feed, carriage return, space and the no-break space U+00A0.
\<close>

definition is_space :: "char \<Rightarrow> bool" where
  "is_space c = (c \<in> set [CHR '' '', CHR 0x09, CHR 0x0A, CHR 0x0B, CHR 0x0C, CHR 0x0D,
     CHR 0xA0])"

definition trim :: "string \<Rightarrow> string" where
  "trim s = rev (dropWhile is_space (rev (dropWhile is_space s)))"

definition isLength :: "nat \<Rightarrow> nat \<Rightarrow> string \<Rightarrow> bool" where
  "isLength lo hi s = (lo \<le> length s \<and> length s \<le> hi)"

text \<open>\<^verbatim>\<open>matches(/^[0-9]{n}$/)\<close>.\<close>

definition matches_digits :: "nat \<Rightarrow> string \<Rightarrow> bool" where
  "matches_digits n s = (length s = n \<and> list_all (\<lambda>c. c \<in> set ''0123456789'') s)"

definition check :: "bool \<Rightarrow> string \<Rightarrow> string list" where
  "check ok msg = (if ok then [] else [msg])"

text \<open>
  \<^verbatim>\<open>validateAddress\<close> (addresses.js): the list of error messages, empty when the body
  passes. \<^verbatim>\<open>customer_id\<close> is not among the validated fields. \<^verbatim>\<open>optional()\<close> skips a
  chain when the field is absent; \<^verbatim>\<open>isBoolean()\<close> holds of every JSON boolean.
\<close>

definition validateAddress :: "addr_payload \<Rightarrow> string list" where
  "validateAddress b =
     check (isLength 5 200 (trim (toString (p_address_line1 b))))
       ''Address line 1 must be between 5 and 200 characters'' @
     (case p_address_line2 b of None \<Rightarrow> []
      | Some x \<Rightarrow> check (isLength 0 200 (trim x))
          ''Address line 2 must be less than 200 characters'') @
     check (isLength 2 50 (trim (toString (p_city b))))
       ''City must be between 2 and 50 characters'' @
     check (isLength 2 50 (trim (toString (p_state b))))
       ''State must be between 2 and 50 characters'' @
     check (matches_digits 6 (toString (p_pin_code b)))
       ''Pin code must be exactly 6 digits'' @
     (case p_country b of None \<Rightarrow> []
      | Some x \<Rightarrow> check (isLength 2 50 (trim x))
          ''Country must be between 2 and 50 characters'')"

text \<open>The \<^verbatim>\<open>trim()\<close> sanitizers of the chain rewrite the fields of the request body.\<close>

definition sanitizeAddress :: "addr_payload \<Rightarrow> addr_payload" where
  "sanitizeAddress b = b\<lparr>
     p_address_line1 := Some (trim (toString (p_address_line1 b))),
     p_address_line2 := map_option trim (p_address_line2 b),
     p_city := Some (trim (toString (p_city b))),
     p_state := Some (trim (toString (p_state b))),
     p_country := map_option trim (p_country b)\<rparr>"

text \<open>
  \<^verbatim>\<open>validateCustomer\<close> (customers.js). \<^verbatim>\<open>isEmail\<close> belongs to the validator library
  and is a parameter; \<^verbatim>\<open>isArray()\<close> holds of every list.
\<close>

definition validateCustomer :: "(string \<Rightarrow> bool) \<Rightarrow> customer_body \<Rightarrow> string list" where
  "validateCustomer isEmail b =
     check (isLength 2 50 (trim (toString (first_name b))))
       ''First name must be between 2 and 50 characters'' @
     check (isLength 2 50 (trim (toString (last_name b))))
       ''Last name must be between 2 and 50 characters'' @
     check (matches_digits 10 (toString (phone_number b)))
       ''Phone number must be exactly 10 digits'' @
     (case email b of None \<Rightarrow> [] | Some e \<Rightarrow> check (isEmail e) ''Invalid email format'')"

text \<open>\<^verbatim>\<open>if (email)\<close>: a non-empty string.\<close>

definition email_given :: "string option \<Rightarrow> bool" where
  "email_given e = (case e of None \<Rightarrow> False | Some x \<Rightarrow> x \<noteq> [])"

subsection \<open>The SQL statements of the routes\<close>

text \<open>\<^verbatim>\<open>SELECT id FROM customers WHERE id = ?\<close>; a NULL parameter matches no row.\<close>

definition customer_exists :: "nat option \<Rightarrow> db \<Rightarrow> bool" where
  "customer_exists cid s =
     (case cid of None \<Rightarrow> False | Some i \<Rightarrow> (\<exists>c\<in>set (customers s). c_id c = i))"

text \<open>\<^verbatim>\<open>SELECT COUNT(*) FROM addresses WHERE customer_id = ?\<close>.\<close>

definition address_count :: "nat \<Rightarrow> db \<Rightarrow> nat" where
  "address_count cid s = length (filter (\<lambda>a. customer_id a = cid) (addresses s))"

text \<open>
  \<^verbatim>\<open>INSERT INTO customers (first_name, last_name, phone_number, email)\<close>. The statement
  fails on a \<^verbatim>\<open>UNIQUE\<close> column that already holds the value (NULLs never collide); the
  flags and timestamps take their defaults. The result is \<^verbatim>\<open>this.lastID\<close> and the store.
\<close>

definition insert_customer ::
    "nat \<Rightarrow> string \<Rightarrow> string \<Rightarrow> string \<Rightarrow> string option \<Rightarrow> db \<Rightarrow> (nat \<times> db) option" where
  "insert_customer now fn ln ph em s =
     (if (\<exists>c\<in>set (customers s). c_phone_number c = ph) \<or>
         (em \<noteq> None \<and> (\<exists>c\<in>set (customers s). c_email c = em))
      then None
      else let i = next_rowid (customers_seq s) (map c_id (customers s)) in
        Some (i, s\<lparr>customers := customers s @
          [\<lparr>c_id = i, c_first_name = fn, c_last_name = ln, c_phone_number = ph, c_email = em,
            c_created_at = now, c_updated_at = now,
            has_multiple_addresses = False, only_one_address = False\<rparr>],
          customers_seq := i\<rparr>))"

text \<open>
  \<^verbatim>\<open>UPDATE customers SET first_name = ?, last_name = ?, phone_number = ?, email = ?,
  updated_at = CURRENT_TIMESTAMP WHERE id = ?\<close>: fails on a \<^verbatim>\<open>UNIQUE\<close> collision with
  another row; otherwise the number of rows changed (\<^verbatim>\<open>this.changes\<close>) and the store.
\<close>

definition update_customer ::
    "nat \<Rightarrow> nat \<Rightarrow> string \<Rightarrow> string \<Rightarrow> string \<Rightarrow> string option \<Rightarrow> db \<Rightarrow> (nat \<times> db) option" where
  "update_customer now cid fn ln ph em s =
     (if (\<exists>c\<in>set (customers s). c_id c = cid) \<and>
         (\<exists>c\<in>set (customers s). c_id c \<noteq> cid \<and>
            (c_phone_number c = ph \<or> (em \<noteq> None \<and> c_email c = em)))
      then None
      else Some (length (filter (\<lambda>c. c_id c = cid) (customers s)),
        s\<lparr>customers := map (\<lambda>c. if c_id c = cid
             then c\<lparr>c_first_name := fn, c_last_name := ln, c_phone_number := ph, c_email := em,
                    c_updated_at := now\<rparr>
             else c) (customers s)\<rparr>))"

text \<open>
  \<^verbatim>\<open>DELETE FROM customers WHERE id = ?\<close>. The \<^verbatim>\<open>ON DELETE CASCADE\<close> of the
  addresses table acts only when the connection enforces foreign keys.
\<close>

definition delete_customer_row :: "nat \<Rightarrow> db \<Rightarrow> db" where
  "delete_customer_row cid s =
     s\<lparr>customers := filter (\<lambda>c. c_id c \<noteq> cid) (customers s),
       addresses := (if foreign_keys s
          then filter (\<lambda>a. customer_id a \<noteq> cid) (addresses s)
          else addresses s)\<rparr>"

text \<open>
  The row an address INSERT of the routes stores: \<^verbatim>\<open>[customerId, address_line1,
  address_line2 || '', city, state, pin_code, country || 'India', is_primary || false]\<close>.
\<close>

definition address_row :: "nat \<Rightarrow> nat \<Rightarrow> nat \<Rightarrow> addr_payload \<Rightarrow> address" where
  "address_row i now cid p =
     \<lparr>a_id = i, customer_id = cid,
      address_line1 = toString (p_address_line1 p),
      address_line2 = or_default (p_address_line2 p) [],
      city = toString (p_city p),
      state = toString (p_state p),
      pin_code = toString (p_pin_code p),
      country = or_default (p_country p) ''India'',
      is_primary = truthy (p_is_primary p),
      a_created_at = now, a_updated_at = now\<rparr>"

text \<open>The \<^verbatim>\<open>NOT NULL\<close> columns an address statement binds from the body.\<close>

definition not_null :: "addr_payload \<Rightarrow> bool" where
  "not_null p = (p_address_line1 p \<noteq> None \<and> p_city p \<noteq> None \<and> p_state p \<noteq> None \<and>
     p_pin_code p \<noteq> None)"

text \<open>
  \<^verbatim>\<open>INSERT INTO addresses (customer_id, address_line1, ..., is_primary)\<close>: fails when a
  \<^verbatim>\<open>NOT NULL\<close> column is bound to NULL, or when foreign keys are enforced and the
  customer does not exist.
\<close>

definition insert_address :: "nat \<Rightarrow> nat \<Rightarrow> addr_payload \<Rightarrow> db \<Rightarrow> (nat \<times> db) option" where
  "insert_address now cid p s =
     (if not_null p \<and> (customer_exists (Some cid) s \<or> \<not> foreign_keys s)
      then let i = next_rowid (addresses_seq s) (map a_id (addresses s)) in
        Some (i, s\<lparr>addresses := addresses s @ [address_row i now cid p],
                   addresses_seq := i\<rparr>)
      else None)"

text \<open>
  \<^verbatim>\<open>UPDATE addresses SET address_line1 = ?, ..., is_primary = ?,
  updated_at = CURRENT_TIMESTAMP WHERE id = ?\<close>; \<^verbatim>\<open>customer_id\<close> is not assigned.
\<close>

definition update_address :: "nat \<Rightarrow> nat \<Rightarrow> addr_payload \<Rightarrow> db \<Rightarrow> (nat \<times> db) option" where
  "update_address now aid p s =
     (if \<not> not_null p \<and> (\<exists>a\<in>set (addresses s). a_id a = aid) then None
      else Some (length (filter (\<lambda>a. a_id a = aid) (addresses s)),
        s\<lparr>addresses := map (\<lambda>a. if a_id a = aid
             then a\<lparr>address_line1 := toString (p_address_line1 p),
                    address_line2 := or_default (p_address_line2 p) [],
                    city := toString (p_city p),
                    state := toString (p_state p),
                    pin_code := toString (p_pin_code p),
                    country := or_default (p_country p) ''India'',
                    is_primary := truthy (p_is_primary p),
                    a_updated_at := now\<rparr>
             else a) (addresses s)\<rparr>))"

text \<open>\<^verbatim>\<open>UPDATE addresses SET is_primary = FALSE WHERE customer_id = ?\<close>.\<close>

definition clear_primary :: "nat \<Rightarrow> db \<Rightarrow> db" where
  "clear_primary cid s =
     s\<lparr>addresses := map (\<lambda>a. if customer_id a = cid then a\<lparr>is_primary := False\<rparr> else a)
        (addresses s)\<rparr>"

text \<open>\<^verbatim>\<open>UPDATE addresses SET is_primary = FALSE WHERE customer_id = ? AND id != ?\<close>.\<close>

definition clear_primary_except :: "nat \<Rightarrow> nat \<Rightarrow> db \<Rightarrow> db" where
  "clear_primary_except cid aid s =
     s\<lparr>addresses := map (\<lambda>a. if customer_id a = cid \<and> a_id a \<noteq> aid
          then a\<lparr>is_primary := False\<rparr> else a) (addresses s)\<rparr>"

text \<open>\<^verbatim>\<open>DELETE FROM addresses WHERE id = ?\<close>.\<close>

definition delete_address_row :: "nat \<Rightarrow> db \<Rightarrow> db" where
  "delete_address_row aid s = s\<lparr>addresses := filter (\<lambda>a. a_id a \<noteq> aid) (addresses s)\<rparr>"

text \<open>\<^verbatim>\<open>DELETE FROM addresses WHERE customer_id = ?\<close>.\<close>

definition delete_addresses_of :: "nat \<Rightarrow> db \<Rightarrow> db" where
  "delete_addresses_of cid s =
     s\<lparr>addresses := filter (\<lambda>a. customer_id a \<noteq> cid) (addresses s)\<rparr>"

text \<open>
  \<^verbatim>\<open>updateCustomerAddressFlags\<close> (addresses.js): one UPDATE that sets both flags of the
  customer from the live count of its addresses.
\<close>

definition updateCustomerAddressFlags :: "nat \<Rightarrow> db \<Rightarrow> db" where
  "updateCustomerAddressFlags customerId s =
     s\<lparr>customers := map (\<lambda>c. if c_id c = customerId
          then c\<lparr>has_multiple_addresses := (1 < address_count customerId s),
                 only_one_address := (address_count customerId s = 1)\<rparr>
          else c) (customers s)\<rparr>"

text \<open>
  \<^verbatim>\<open>updateAddressFlags\<close>, the local function of the POST and PUT handlers of
  customers.js: the same UPDATE statement, written out again there.
\<close>

definition updateAddressFlags :: "nat \<Rightarrow> db \<Rightarrow> db" where
  "updateAddressFlags customerId s =
     s\<lparr>customers := map (\<lambda>c. if c_id c = customerId
          then c\<lparr>has_multiple_addresses := (1 < address_count customerId s),
                 only_one_address := (address_count customerId s = 1)\<rparr>
          else c) (customers s)\<rparr>"

text \<open>
  A run of address INSERTs, in the order the driver executes them; a failed INSERT is
  logged and the run goes on.
\<close>

fun insert_addresses :: "nat \<Rightarrow> nat \<Rightarrow> addr_payload list \<Rightarrow> db \<Rightarrow> db" where
  "insert_addresses now cid [] s = s"
| "insert_addresses now cid (p # ps) s =
     insert_addresses now cid ps
       (case insert_address now cid p s of None \<Rightarrow> s | Some (i, s') \<Rightarrow> s')"

text \<open>\<^verbatim>\<open>addresses && addresses.length > 0\<close>.\<close>

definition supplied :: "addr_payload list option \<Rightarrow> addr_payload list" where
  "supplied v = (case v of None \<Rightarrow> [] | Some ps \<Rightarrow> ps)"

section \<open>The order in which the driver runs unchained statements\<close>

text \<open>
  database.js calls \<^verbatim>\<open>db.serialize\<close> around the body of \<^verbatim>\<open>initializeDatabase\<close>
  only, so the routes run on a connection in the driver's default parallel mode: a
  statement issued inside the callback of another runs after it, but two statements a
  handler issues side by side may run in either order. Two places of the routes do that.

  \<^item> \<^verbatim>\<open>addresses.forEach(... db.run('INSERT ...'))\<close> in both customer handlers issues
    the INSERTs of all entries at once. The order in which they run is a parameter
    \<open>order\<close> of the handler: a function that rearranges the supplied list, a
    permutation of it (\<open>permutes\<close>).
  \<^item> \<^verbatim>\<open>router.post('/')\<close> of addresses.js issues the UPDATE that clears the
    customer's primary flags and then, outside its callback, the INSERT of the new row.
    Which of the two runs first is a parameter \<open>schedule\<close> of the handler.

  \<^verbatim>\<open>router.put('/:id')\<close> of addresses.js issues its two UPDATEs side by side as well,
  but they write disjoint rows and either order leaves the same store; the flag
  recompute is always issued from the callback of the last INSERT, UPDATE or DELETE and
  reads only the row count.
\<close>

definition permutes :: "(addr_payload list \<Rightarrow> addr_payload list) \<Rightarrow> addr_payload list \<Rightarrow> bool"
  where "permutes order ps = (mset (order ps) = mset ps)"

text \<open>The order in which the handler issued them.\<close>

definition as_issued :: "addr_payload list \<Rightarrow> addr_payload list" where
  "as_issued ps = ps"

datatype schedule = UpdateBeforeInsert | InsertBeforeUpdate

section \<open>The customer routes (server/routes/customers.js)\<close>

text \<open>
  Each handler is a function from the request, the driver's choices and the store to the
  response and the store it leaves. The callbacks of one request are run to completion
  before the next request: interleavings of requests are outside this model.
\<close>

definition createCustomerWithAddresses ::
    "(addr_payload list \<Rightarrow> addr_payload list) \<Rightarrow> nat \<Rightarrow> string \<Rightarrow> string \<Rightarrow> string \<Rightarrow>
      string option \<Rightarrow> addr_payload list option \<Rightarrow> db \<Rightarrow> response \<times> db" where
  "createCustomerWithAddresses order now fn ln ph em addrs s =
     (case insert_customer now fn ln ph em s of
        None \<Rightarrow> (reply 500 ''Error creating customer'', s)
      | Some (customerId, s1) \<Rightarrow>
          (reply_id 201 ''Customer created successfully'' customerId,
           updateAddressFlags customerId
             (if supplied addrs \<noteq> []
              then insert_addresses now customerId (order (supplied addrs)) s1
              else s1)))"

text \<open>\<^verbatim>\<open>router.post('/')\<close>.\<close>

definition post_customer ::
    "(string \<Rightarrow> bool) \<Rightarrow> (addr_payload list \<Rightarrow> addr_payload list) \<Rightarrow> nat \<Rightarrow> customer_body \<Rightarrow>
      db \<Rightarrow> response \<times> db" where
  "post_customer isEmail order now b s =
     (if validateCustomer isEmail b \<noteq> [] then (reply 400 ''Validation errors'', s)
      else if \<exists>c\<in>set (customers s). c_phone_number c = toString (phone_number b)
        then (reply 400 ''Phone number already exists'', s)
      else if email_given (email b) \<and> (\<exists>c\<in>set (customers s). c_email c = email b)
        then (reply 400 ''Email already exists'', s)
      else createCustomerWithAddresses order now
        (trim (toString (first_name b))) (trim (toString (last_name b)))
        (toString (phone_number b)) (email b) (addresses_in b) s)"

definition updateCustomer ::
    "(addr_payload list \<Rightarrow> addr_payload list) \<Rightarrow> nat \<Rightarrow> nat \<Rightarrow> string \<Rightarrow> string \<Rightarrow> string \<Rightarrow>
      string option \<Rightarrow> addr_payload list option \<Rightarrow> db \<Rightarrow> response \<times> db" where
  "updateCustomer order now customerId fn ln ph em addrs s =
     (case update_customer now customerId fn ln ph em s of
        None \<Rightarrow> (reply 500 ''Error updating customer'', s)
      | Some (changes, s1) \<Rightarrow>
          if changes = 0 then (reply 404 ''Customer not found'', s1)
          else (reply_id 200 ''Customer updated successfully'' customerId,
            updateAddressFlags customerId
              (if supplied addrs \<noteq> []
               then insert_addresses now customerId (order (supplied addrs))
                      (delete_addresses_of customerId s1)
               else delete_addresses_of customerId s1)))"

text \<open>\<^verbatim>\<open>router.put('/:id')\<close>.\<close>

definition put_customer ::
    "(string \<Rightarrow> bool) \<Rightarrow> (addr_payload list \<Rightarrow> addr_payload list) \<Rightarrow> nat \<Rightarrow> nat \<Rightarrow>
      customer_body \<Rightarrow> db \<Rightarrow> response \<times> db" where
  "put_customer isEmail order now customerId b s =
     (if validateCustomer isEmail b \<noteq> [] then (reply 400 ''Validation errors'', s)
      else if \<not> customer_exists (Some customerId) s then (reply 404 ''Customer not found'', s)
      else if \<exists>c\<in>set (customers s).
                c_phone_number c = toString (phone_number b) \<and> c_id c \<noteq> customerId
        then (reply 400 ''Phone number already exists'', s)
      else if email_given (email b) \<and>
              (\<exists>c\<in>set (customers s). c_email c = email b \<and> c_id c \<noteq> customerId)
        then (reply 400 ''Email already exists'', s)
      else updateCustomer order now customerId
        (trim (toString (first_name b))) (trim (toString (last_name b)))
        (toString (phone_number b)) (email b) (addresses_in b) s)"

text \<open>\<^verbatim>\<open>router.delete('/:id')\<close>.\<close>

definition delete_customer :: "nat \<Rightarrow> db \<Rightarrow> response \<times> db" where
  "delete_customer customerId s =
     (if \<not> customer_exists (Some customerId) s then (reply 404 ''Customer not found'', s)
      else (reply 200 ''Customer deleted successfully'', delete_customer_row customerId s))"

text \<open>\<^verbatim>\<open>router.get('/:id')\<close>: the customer row with its addresses, or 404.\<close>

definition get_customer :: "nat \<Rightarrow> db \<Rightarrow> response + customer \<times> address list" where
  "get_customer customerId s =
     (case find (\<lambda>c. c_id c = customerId) (customers s) of
        None \<Rightarrow> Inl (reply 404 ''Customer not found'')
      | Some c \<Rightarrow> Inr (c, filter (\<lambda>a. customer_id a = customerId) (addresses s)))"

section \<open>The address routes (server/routes/addresses.js)\<close>

text \<open>
  \<^verbatim>\<open>router.post('/')\<close>. With \<open>is_primary\<close> truthy the handler issues the clearing
  UPDATE and the INSERT side by side: under \<open>UpdateBeforeInsert\<close> the UPDATE runs
  first, under \<open>InsertBeforeUpdate\<close> the INSERT does and the UPDATE then finds the new
  row too. The answer and the flag recompute come from the callback of the INSERT.
\<close>

definition post_address :: "schedule \<Rightarrow> nat \<Rightarrow> addr_payload \<Rightarrow> db \<Rightarrow> response \<times> db" where
  "post_address schedule now b s =
     (if validateAddress b \<noteq> [] then (reply 400 ''Validation errors'', s)
      else case p_customer_id b of
        None \<Rightarrow> (reply 404 ''Customer not found'', s)
      | Some cid \<Rightarrow>
          if \<not> customer_exists (Some cid) s then (reply 404 ''Customer not found'', s)
          else if truthy (p_is_primary b) \<and> schedule = InsertBeforeUpdate then
            (case insert_address now cid (sanitizeAddress b) s of
               None \<Rightarrow> (reply 500 ''Error creating address'', clear_primary cid s)
             | Some (addressId, s2) \<Rightarrow>
                 (reply_id 201 ''Address created successfully'' addressId,
                  updateCustomerAddressFlags cid (clear_primary cid s2)))
          else let s1 = (if truthy (p_is_primary b) then clear_primary cid s else s) in
            (case insert_address now cid (sanitizeAddress b) s1 of
               None \<Rightarrow> (reply 500 ''Error creating address'', s1)
             | Some (addressId, s2) \<Rightarrow>
                 (reply_id 201 ''Address created successfully'' addressId,
                  updateCustomerAddressFlags cid s2)))"

text \<open>\<^verbatim>\<open>router.put('/:id')\<close>.\<close>

definition put_address :: "nat \<Rightarrow> nat \<Rightarrow> addr_payload \<Rightarrow> db \<Rightarrow> response \<times> db" where
  "put_address now addressId b s =
     (if validateAddress b \<noteq> [] then (reply 400 ''Validation errors'', s)
      else case find (\<lambda>a. a_id a = addressId) (addresses s) of
        None \<Rightarrow> (reply 404 ''Address not found'', s)
      | Some row \<Rightarrow>
          let customerId = customer_id row;
              s1 = (if truthy (p_is_primary b)
                    then clear_primary_except customerId addressId s else s)
          in (case update_address now addressId (sanitizeAddress b) s1 of
                None \<Rightarrow> (reply 500 ''Error updating address'', s1)
              | Some (changes, s2) \<Rightarrow>
                  if changes = 0 then (reply 404 ''Address not found'', s2)
                  else (reply_id 200 ''Address updated successfully'' addressId,
                        updateCustomerAddressFlags customerId s2)))"

text \<open>\<^verbatim>\<open>router.delete('/:id')\<close>.\<close>

definition delete_address :: "nat \<Rightarrow> db \<Rightarrow> response \<times> db" where
  "delete_address addressId s =
     (case find (\<lambda>a. a_id a = addressId) (addresses s) of
        None \<Rightarrow> (reply 404 ''Address not found'', s)
      | Some row \<Rightarrow>
          (reply 200 ''Address deleted successfully'',
           updateCustomerAddressFlags (customer_id row) (delete_address_row addressId s)))"

section \<open>Reachable stores\<close>

text \<open>
  Every store the routes can produce from the empty one, by requests with any arguments,
  accepted or rejected, under any order of the unchained statements. The sample rows
  that \<^verbatim>\<open>insertSampleData\<close> writes into an empty customers table at start-up are
  not part of it.
\<close>

inductive reachable :: "db \<Rightarrow> bool" where
  r_init: "reachable init_db"
| r_post_customer:
    "reachable s \<Longrightarrow> permutes order (supplied (addresses_in b)) \<Longrightarrow>
     reachable (snd (post_customer isEmail order now b s))"
| r_put_customer:
    "reachable s \<Longrightarrow> permutes order (supplied (addresses_in b)) \<Longrightarrow>
     reachable (snd (put_customer isEmail order now cid b s))"
| r_delete_customer: "reachable s \<Longrightarrow> reachable (snd (delete_customer cid s))"
| r_post_address: "reachable s \<Longrightarrow> reachable (snd (post_address schedule now p s))"
| r_put_address: "reachable s \<Longrightarrow> reachable (snd (put_address now aid p s))"
| r_delete_address: "reachable s \<Longrightarrow> reachable (snd (delete_address aid s))"

section \<open>Properties of a store\<close>

definition pk_ok :: "db \<Rightarrow> bool" where
  "pk_ok s = (distinct (map a_id (addresses s)) \<and> distinct (map c_id (customers s)))"

definition flags_ok :: "db \<Rightarrow> bool" where
  "flags_ok s = (\<forall>c\<in>set (customers s).
     has_multiple_addresses c = (1 < address_count (c_id c) s) \<and>
     only_one_address c = (address_count (c_id c) s = 1))"

definition flags_ok_except :: "nat \<Rightarrow> db \<Rightarrow> bool" where
  "flags_ok_except cid s = (\<forall>c\<in>set (customers s). c_id c \<noteq> cid \<longrightarrow>
     has_multiple_addresses c = (1 < address_count (c_id c) s) \<and>
     only_one_address c = (address_count (c_id c) s = 1))"


text \<open>The ids of the addresses of a customer that are marked primary, in table order.\<close>

definition primaries :: "nat \<Rightarrow> db \<Rightarrow> nat list" where
  "primaries cid s = map a_id (filter (\<lambda>a. customer_id a = cid \<and> is_primary a) (addresses s))"

text \<open>At most one primary address per owner.\<close>

definition primary_ok :: "db \<Rightarrow> bool" where
  "primary_ok s = (\<forall>a\<in>set (addresses s). length (primaries (customer_id a) s) \<le> 1)"

subsection \<open>Concrete requests\<close>

text \<open>
  The example scenario of the specification, for evaluating the routes: a stand-in for the
  library's \<^verbatim>\<open>isEmail\<close>, a customer created with one primary address, and a second
  primary address added to her with the clearing UPDATE run before the INSERT.
\<close>

definition has_at :: "string \<Rightarrow> bool" where
  "has_at e = (CHR ''@'' \<in> set e)"

definition oak_st :: addr_payload where
  "oak_st = \<lparr>p_customer_id = None, p_address_line1 = Some ''12 Oak St'',
     p_address_line2 = None, p_city = Some ''Springfield'', p_state = Some ''IL'',
     p_pin_code = Some ''620001'', p_country = None, p_is_primary = Some True\<rparr>"

definition elm_ave :: addr_payload where
  "elm_ave = \<lparr>p_customer_id = Some 1, p_address_line1 = Some ''34 Elm Ave'',
     p_address_line2 = None, p_city = Some ''Springfield'', p_state = Some ''IL'',
     p_pin_code = Some ''620002'', p_country = None, p_is_primary = Some True\<rparr>"

definition ann :: customer_body where
  "ann = \<lparr>first_name = Some ''Ann'', last_name = Some ''Lee'',
     phone_number = Some ''5551112222'', email = Some ''ann@example.com'',
     addresses_in = Some [oak_st]\<rparr>"

definition db_ann :: db where
  "db_ann = snd (post_customer has_at as_issued 1 ann init_db)"

definition db_ann2 :: db where
  "db_ann2 = snd (post_address UpdateBeforeInsert 2 elm_ave db_ann)"

definition ann_row :: customer where
  "ann_row = \<lparr>c_id = 1, c_first_name = ''Ann'', c_last_name = ''Lee'',
     c_phone_number = ''5551112222'', c_email = Some ''ann@example.com'',
     c_created_at = 1, c_updated_at = 1,
     has_multiple_addresses = True, only_one_address = False\<rparr>"

text \<open>A second customer, and a body that marks an address as not primary.\<close>

definition bob :: customer_body where
  "bob = \<lparr>first_name = Some ''Bob'', last_name = Some ''Ray'',
     phone_number = Some ''5553334444'', email = None,
     addresses_in = Some [oak_st\<lparr>p_address_line1 := Some ''7 Pine Rd''\<rparr>]\<rparr>"

definition db_two :: db where
  "db_two = snd (post_customer has_at as_issued 3 bob db_ann2)"

definition elm_ave_secondary :: addr_payload where
  "elm_ave_secondary = elm_ave\<lparr>p_is_primary := Some False\<rparr>"

text \<open>
  Bodies for the customer routes: one whose two addresses are both marked primary, one
  whose only address has \<^verbatim>\<open>address_line1: null\<close>, and one that mixes both kinds of entry.
\<close>

definition ann_two_primaries :: customer_body where
  "ann_two_primaries = ann\<lparr>addresses_in := Some [oak_st, elm_ave]\<rparr>"

definition no_line1 :: addr_payload where
  "no_line1 = oak_st\<lparr>p_address_line1 := None\<rparr>"

definition ann_null_line1 :: customer_body where
  "ann_null_line1 = ann\<lparr>addresses_in := Some [no_line1]\<rparr>"

definition ann_mixed :: customer_body where
  "ann_mixed = ann\<lparr>addresses_in := Some [elm_ave_secondary, no_line1, oak_st]\<rparr>"

section \<open>Lemmas about the statements and the routes\<close>

subsection \<open>Row identifiers\<close>

lemma fold_max_ge: "seq \<le> fold max ids (seq::nat)"
proof (induction ids arbitrary: seq)
  case Nil then show ?case by simp
next
  case (Cons a ids)
  have "seq \<le> max a seq" by simp
  also have "max a seq \<le> fold max ids (max a seq)" by (rule Cons.IH)
  finally show ?case by simp
qed

lemma fold_max_mem: "i \<in> set ids \<Longrightarrow> i \<le> fold max ids (seq::nat)"
proof (induction ids arbitrary: seq)
  case Nil then show ?case by simp
next
  case (Cons a ids)
  show ?case
  proof (cases "i = a")
    case True
    have "max a seq \<le> fold max ids (max a seq)" by (rule fold_max_ge)
    with True show ?thesis by simp
  next
    case False
    with Cons show ?thesis by simp
  qed
qed

lemma next_rowid_fresh: "i \<in> set ids \<Longrightarrow> i < next_rowid seq ids"
  by (simp add: next_rowid_def fold_max_mem less_Suc_eq_le)

lemma next_rowid_notin: "next_rowid seq ids \<notin> set ids"
  using next_rowid_fresh [of "next_rowid seq ids" ids seq] by auto

subsection \<open>What each statement leaves alone\<close>

lemma updateAddressFlags_eq: "updateAddressFlags = updateCustomerAddressFlags"
  by (intro ext) (simp add: updateAddressFlags_def updateCustomerAddressFlags_def)

lemma address_count_map:
  "address_count k s = length (filter (\<lambda>x. x = k) (map customer_id (addresses s)))"
  by (simp add: address_count_def filter_map o_def)

lemma address_count_cong:
  "map customer_id (addresses s') = map customer_id (addresses s) \<Longrightarrow>
   address_count k s' = address_count k s"
  by (simp add: address_count_map)

lemma flags_simps [simp]:
  "addresses (updateCustomerAddressFlags cid s) = addresses s"
  "foreign_keys (updateCustomerAddressFlags cid s) = foreign_keys s"
  "map c_id (customers (updateCustomerAddressFlags cid s)) = map c_id (customers s)"
  by (simp_all add: updateCustomerAddressFlags_def o_def cong: if_cong)

lemma clear_primary_simps [simp]:
  "customers (clear_primary cid s) = customers s"
  "foreign_keys (clear_primary cid s) = foreign_keys s"
  "addresses_seq (clear_primary cid s) = addresses_seq s"
  "map a_id (addresses (clear_primary cid s)) = map a_id (addresses s)"
  "map customer_id (addresses (clear_primary cid s)) = map customer_id (addresses s)"
  by (simp_all add: clear_primary_def o_def cong: if_cong)

lemma clear_primary_except_simps [simp]:
  "customers (clear_primary_except cid aid s) = customers s"
  "foreign_keys (clear_primary_except cid aid s) = foreign_keys s"
  "map a_id (addresses (clear_primary_except cid aid s)) = map a_id (addresses s)"
  "map customer_id (addresses (clear_primary_except cid aid s)) = map customer_id (addresses s)"
  by (simp_all add: clear_primary_except_def o_def cong: if_cong)

lemma update_address_simps:
  assumes "update_address now aid p s = Some (n, s')"
  shows "customers s' = customers s" "foreign_keys s' = foreign_keys s"
    "map a_id (addresses s') = map a_id (addresses s)"
    "map customer_id (addresses s') = map customer_id (addresses s)"
  using assms by (auto simp: update_address_def o_def split: if_splits cong: if_cong)

lemma delete_address_row_simps [simp]:
  "customers (delete_address_row aid s) = customers s"
  "foreign_keys (delete_address_row aid s) = foreign_keys s"
  "addresses (delete_address_row aid s) = filter (\<lambda>a. a_id a \<noteq> aid) (addresses s)"
  by (simp_all add: delete_address_row_def)

lemma delete_addresses_of_simps [simp]:
  "customers (delete_addresses_of cid s) = customers s"
  "foreign_keys (delete_addresses_of cid s) = foreign_keys s"
  "addresses (delete_addresses_of cid s) = filter (\<lambda>a. customer_id a \<noteq> cid) (addresses s)"
  by (simp_all add: delete_addresses_of_def)

lemma insert_address_simps:
  assumes "insert_address now cid p s = Some (i, s')"
  shows "customers s' = customers s" "foreign_keys s' = foreign_keys s"
    "i = next_rowid (addresses_seq s) (map a_id (addresses s))"
    "addresses s' = addresses s @ [address_row i now cid p]"
    "not_null p"
  using assms by (auto simp: insert_address_def Let_def split: if_splits)

lemma insert_customer_simps:
  assumes "insert_customer now fn ln ph em s = Some (i, s')"
  shows "addresses s' = addresses s" "foreign_keys s' = foreign_keys s"
    "i = next_rowid (customers_seq s) (map c_id (customers s))"
    "map c_id (customers s') = map c_id (customers s) @ [i]"
    "\<exists>c. customers s' = customers s @ [c] \<and> c_id c = i \<and>
       \<not> has_multiple_addresses c \<and> \<not> only_one_address c"
  using assms by (auto simp: insert_customer_def Let_def split: if_splits)

lemma update_customer_simps:
  assumes "update_customer now cid fn ln ph em s = Some (n, s')"
  shows "addresses s' = addresses s" "foreign_keys s' = foreign_keys s"
    "map c_id (customers s') = map c_id (customers s)"
    "map has_multiple_addresses (customers s') = map has_multiple_addresses (customers s)"
    "map only_one_address (customers s') = map only_one_address (customers s)"
  using assms by (auto simp: update_customer_def o_def split: if_splits cong: if_cong)

lemma insert_addresses_customers [simp]:
  "customers (insert_addresses now cid ps s) = customers s"
  by (induction ps arbitrary: s) (auto split: option.splits dest: insert_address_simps(1))

lemma insert_addresses_foreign_keys [simp]:
  "foreign_keys (insert_addresses now cid ps s) = foreign_keys s"
  by (induction ps arbitrary: s) (auto split: option.splits dest: insert_address_simps(2))

subsection \<open>Counts\<close>

lemma address_count_insert_address:
  assumes "insert_address now cid p s = Some (i, s')"
  shows "address_count k s' = (if k = cid then Suc (address_count k s) else address_count k s)"
  using insert_address_simps(4) [OF assms]
  by (simp add: address_count_def address_row_def)

lemma address_count_insert_addresses:
  "k \<noteq> cid \<Longrightarrow> address_count k (insert_addresses now cid ps s) = address_count k s"
  by (induction ps arbitrary: s)
     (auto split: option.splits simp: address_count_insert_address)

lemma address_count_delete_addresses_of:
  "address_count k (delete_addresses_of cid s) = (if k = cid then 0 else address_count k s)"
proof -
  have "filter (\<lambda>a. customer_id a = k) (filter (\<lambda>a. customer_id a \<noteq> cid) (addresses s)) =
        (if k = cid then [] else filter (\<lambda>a. customer_id a = k) (addresses s))"
    by (induction "addresses s") (auto intro: filter_cong)
  then show ?thesis by (simp add: address_count_def)
qed

lemma find_a_id:
  assumes "find (\<lambda>a. a_id a = aid) xs = Some row" "distinct (map a_id xs)"
    "a \<in> set xs" "a_id a = aid"
  shows "a = row"
proof -
  from assms(1) have "row \<in> set xs" "a_id row = aid"
    by (auto simp: find_Some_iff)
  with assms show ?thesis by (auto simp: distinct_map inj_on_def)
qed

lemma address_count_delete_address_row:
  assumes "find (\<lambda>a. a_id a = aid) (addresses s) = Some row"
    "distinct (map a_id (addresses s))" "k \<noteq> customer_id row"
  shows "address_count k (delete_address_row aid s) = address_count k s"
proof -
  have "filter (\<lambda>a. customer_id a = k) (filter (\<lambda>a. a_id a \<noteq> aid) (addresses s)) =
        filter (\<lambda>a. customer_id a = k) (addresses s)"
    unfolding filter_filter
    using find_a_id [OF assms(1,2)] assms(3) by (intro filter_cong) auto
  then show ?thesis by (simp add: address_count_def)
qed

subsection \<open>The flags\<close>

lemma flags_ok_exceptI: "flags_ok s \<Longrightarrow> flags_ok_except cid s"
  by (simp add: flags_ok_def flags_ok_except_def)

lemma flags_ok_except_frame:
  assumes "flags_ok_except cid s" "customers s' = customers s"
    "\<And>k. k \<noteq> cid \<Longrightarrow> address_count k s' = address_count k s"
  shows "flags_ok_except cid s'"
  using assms by (simp add: flags_ok_except_def)

lemma flags_ok_frame:
  assumes "flags_ok s" "customers s' = customers s"
    "\<And>k. address_count k s' = address_count k s"
  shows "flags_ok s'"
  using assms by (simp add: flags_ok_def)

lemma flags_ok_update:
  assumes "flags_ok_except cid s"
  shows "flags_ok (updateCustomerAddressFlags cid s)"
proof -
  have "address_count k (updateCustomerAddressFlags cid s) = address_count k s" for k
    by (simp add: address_count_def)
  with assms show ?thesis
    by (auto simp: flags_ok_def flags_ok_except_def updateCustomerAddressFlags_def)
qed

lemma flags_ok_insert_customer:
  assumes "insert_customer now fn ln ph em s = Some (i, s')" "flags_ok s"
  shows "flags_ok_except i s'"
proof -
  from insert_customer_simps(5) [OF assms(1)] obtain c where
    c: "customers s' = customers s @ [c]" "c_id c = i" by blast
  have "address_count k s' = address_count k s" for k
    by (simp add: address_count_def insert_customer_simps(1) [OF assms(1)])
  with assms(2) c show ?thesis
    by (auto simp: flags_ok_def flags_ok_except_def)
qed

lemma flags_ok_update_customer:
  assumes "update_customer now cid fn ln ph em s = Some (n, s')" "flags_ok s"
  shows "flags_ok s'"
proof -
  have cnt: "address_count k s' = address_count k s" for k
    by (simp add: address_count_def update_customer_simps(1) [OF assms(1)])
  from assms show ?thesis
    by (auto simp: flags_ok_def cnt update_customer_def split: if_splits)
qed

lemma flags_ok_delete_customer_row:
  assumes "flags_ok s"
  shows "flags_ok (delete_customer_row cid s)"
proof -
  have "address_count k (delete_customer_row cid s) = address_count k s" if "k \<noteq> cid" for k
  proof -
    have "filter (\<lambda>a. customer_id a = k) (filter (\<lambda>a. customer_id a \<noteq> cid) (addresses s)) =
          filter (\<lambda>a. customer_id a = k) (addresses s)"
      unfolding filter_filter using that by (intro filter_cong) auto
    then show ?thesis by (simp add: address_count_def delete_customer_row_def)
  qed
  with assms show ?thesis
    by (auto simp: flags_ok_def delete_customer_row_def)
qed

subsection \<open>Primary keys\<close>

lemma pk_ok_frame:
  assumes "pk_ok s" "map a_id (addresses s') = map a_id (addresses s)"
    "map c_id (customers s') = map c_id (customers s)"
  shows "pk_ok s'"
  using assms by (simp add: pk_ok_def)

lemma pk_ok_insert_address:
  assumes "insert_address now cid p s = Some (i, s')" "pk_ok s"
  shows "pk_ok s'"
  using assms(2) insert_address_simps(1,3,4) [OF assms(1)]
    next_rowid_notin [of "addresses_seq s" "map a_id (addresses s)"]
  by (simp add: pk_ok_def address_row_def)

lemma pk_ok_insert_addresses: "pk_ok s \<Longrightarrow> pk_ok (insert_addresses now cid ps s)"
  by (induction ps arbitrary: s) (auto split: option.splits intro: pk_ok_insert_address)

lemma pk_ok_insert_customer:
  assumes "insert_customer now fn ln ph em s = Some (i, s')" "pk_ok s"
  shows "pk_ok s'"
  using assms(2) insert_customer_simps(1,3,4) [OF assms(1)]
    next_rowid_notin [of "customers_seq s" "map c_id (customers s)"]
  by (simp add: pk_ok_def)

lemma pk_ok_filter_addresses:
  assumes "pk_ok s" "customers s' = customers s" "addresses s' = filter P (addresses s)"
  shows "pk_ok s'"
  using assms by (simp add: pk_ok_def distinct_map_filter)

lemma pk_ok_delete_customer_row: "pk_ok s \<Longrightarrow> pk_ok (delete_customer_row cid s)"
  by (simp add: pk_ok_def delete_customer_row_def distinct_map_filter)

subsection \<open>Every route keeps the primary keys and the flags\<close>

lemma address_count_clear_primary [simp]:
  "address_count k (clear_primary cid s) = address_count k s"
  by (rule address_count_cong) simp

lemma address_count_clear_primary_except [simp]:
  "address_count k (clear_primary_except cid aid s) = address_count k s"
  by (rule address_count_cong) simp

lemma address_count_update_address:
  "update_address now aid p s = Some (n, s') \<Longrightarrow> address_count k s' = address_count k s"
  by (rule address_count_cong) (simp add: update_address_simps)

lemma createCustomerWithAddresses_inv:
  assumes "pk_ok s" "flags_ok s"
  shows "pk_ok (snd (createCustomerWithAddresses order now fn ln ph em addrs s)) \<and>
         flags_ok (snd (createCustomerWithAddresses order now fn ln ph em addrs s))"
proof (cases "insert_customer now fn ln ph em s")
  case None
  with assms show ?thesis by (simp add: createCustomerWithAddresses_def)
next
  case (Some r)
  obtain i s1 where r: "r = (i, s1)" by (cases r)
  note ins = Some [unfolded r]
  define s2 where "s2 = (if supplied addrs \<noteq> [] then insert_addresses now i (order (supplied addrs)) s1 else s1)"
  have res: "snd (createCustomerWithAddresses order now fn ln ph em addrs s) =
             updateCustomerAddressFlags i s2"
    by (simp add: createCustomerWithAddresses_def ins s2_def updateAddressFlags_eq)
  have pk1: "pk_ok s1" using pk_ok_insert_customer [OF ins assms(1)] .
  have pk2: "pk_ok s2" using pk1 by (simp add: s2_def pk_ok_insert_addresses)
  have f1: "flags_ok_except i s1" using flags_ok_insert_customer [OF ins assms(2)] .
  have f2: "flags_ok_except i s2"
    using f1 by (rule flags_ok_except_frame) (simp_all add: s2_def address_count_insert_addresses)
  show ?thesis
    unfolding res using pk2 f2
    by (auto intro: flags_ok_update pk_ok_frame)
qed

lemma post_customer_inv:
  assumes "pk_ok s" "flags_ok s"
  shows "pk_ok (snd (post_customer isEmail order now b s)) \<and>
         flags_ok (snd (post_customer isEmail order now b s))"
  using assms createCustomerWithAddresses_inv [OF assms]
  by (simp add: post_customer_def)

lemma updateCustomer_inv:
  assumes "pk_ok s" "flags_ok s"
  shows "pk_ok (snd (updateCustomer order now cid fn ln ph em addrs s)) \<and>
         flags_ok (snd (updateCustomer order now cid fn ln ph em addrs s))"
proof (cases "update_customer now cid fn ln ph em s")
  case None
  with assms show ?thesis by (simp add: updateCustomer_def)
next
  case (Some r)
  obtain n s1 where r: "r = (n, s1)" by (cases r)
  note upd = Some [unfolded r]
  have pk1: "pk_ok s1"
    using assms(1) update_customer_simps(1,3) [OF upd] by (simp add: pk_ok_def)
  have f1: "flags_ok s1" using flags_ok_update_customer [OF upd assms(2)] .
  show ?thesis
  proof (cases "n = 0")
    case True
    with pk1 f1 show ?thesis by (simp add: updateCustomer_def upd)
  next
    case False
    define s2 where "s2 = delete_addresses_of cid s1"
    define s3 where "s3 = (if supplied addrs \<noteq> [] then insert_addresses now cid (order (supplied addrs)) s2 else s2)"
    have res: "snd (updateCustomer order now cid fn ln ph em addrs s) =
               updateCustomerAddressFlags cid s3"
      using False by (simp add: updateCustomer_def upd s2_def s3_def updateAddressFlags_eq)
    have pk2: "pk_ok s2"
      using pk1 by (rule pk_ok_filter_addresses) (simp_all add: s2_def)
    have pk3: "pk_ok s3" using pk2 by (simp add: s3_def pk_ok_insert_addresses)
    have f2: "flags_ok_except cid s2"
      using flags_ok_exceptI [OF f1]
      by (rule flags_ok_except_frame)
         (simp_all add: s2_def address_count_delete_addresses_of del: delete_addresses_of_simps(3))
    have f3: "flags_ok_except cid s3"
      using f2 by (rule flags_ok_except_frame) (simp_all add: s3_def address_count_insert_addresses)
    show ?thesis
      unfolding res using pk3 f3 by (auto intro: flags_ok_update pk_ok_frame)
  qed
qed

lemma put_customer_inv:
  assumes "pk_ok s" "flags_ok s"
  shows "pk_ok (snd (put_customer isEmail order now cid b s)) \<and>
         flags_ok (snd (put_customer isEmail order now cid b s))"
  using assms updateCustomer_inv [OF assms]
  by (simp add: put_customer_def)

lemma delete_customer_inv:
  assumes "pk_ok s" "flags_ok s"
  shows "pk_ok (snd (delete_customer cid s)) \<and> flags_ok (snd (delete_customer cid s))"
  using assms by (simp add: delete_customer_def pk_ok_delete_customer_row
      flags_ok_delete_customer_row)

lemma post_address_inv:
  assumes "pk_ok s" "flags_ok s"
  shows "pk_ok (snd (post_address schedule now b s)) \<and> flags_ok (snd (post_address schedule now b s))"
proof (cases "validateAddress b = [] \<and> customer_exists (p_customer_id b) s")
  case False
  with assms show ?thesis
    by (auto simp: post_address_def customer_exists_def split: option.splits)
next
  case True
  then obtain cid where cid: "p_customer_id b = Some cid"
    by (auto simp: customer_exists_def split: option.splits)
  have clr: "pk_ok (clear_primary cid x)" if "pk_ok x" for x
    using that by (simp add: pk_ok_def)
  show ?thesis
  proof (cases "truthy (p_is_primary b) \<and> schedule = InsertBeforeUpdate")
    case first: True
    show ?thesis
    proof (cases "insert_address now cid (sanitizeAddress b) s")
      case None
      then have res: "snd (post_address schedule now b s) = clear_primary cid s"
        using True cid first by (simp add: post_address_def)
      have "flags_ok (clear_primary cid s)"
        using assms(2) by (rule flags_ok_frame) simp_all
      with clr [OF assms(1)] show ?thesis unfolding res by simp
    next
      case (Some r)
      obtain i s2 where r: "r = (i, s2)" by (cases r)
      note ins = Some [unfolded r]
      have res: "snd (post_address schedule now b s) =
                 updateCustomerAddressFlags cid (clear_primary cid s2)"
        using True cid first ins by (simp add: post_address_def)
      have pk2: "pk_ok (clear_primary cid s2)"
        using pk_ok_insert_address [OF ins assms(1)] by (rule clr)
      have f2: "flags_ok_except cid s2"
        using flags_ok_exceptI [OF assms(2)]
        by (rule flags_ok_except_frame)
           (simp_all add: insert_address_simps(1) [OF ins] address_count_insert_address [OF ins])
      have f3: "flags_ok_except cid (clear_primary cid s2)"
        using f2 by (rule flags_ok_except_frame) simp_all
      show ?thesis
        unfolding res using pk2 f3 by (auto intro: flags_ok_update pk_ok_frame)
    qed
  next
    case second: False
    define s1 where "s1 = (if truthy (p_is_primary b) then clear_primary cid s else s)"
    have pk1: "pk_ok s1" using assms(1) by (simp add: s1_def pk_ok_def)
    have f1: "flags_ok s1"
      using assms(2) by (rule flags_ok_frame) (simp_all add: s1_def)
    show ?thesis
    proof (cases "insert_address now cid (sanitizeAddress b) s1")
      case None
      with True cid second pk1 f1 show ?thesis
        by (cases schedule; cases "truthy (p_is_primary b)")
           (simp_all add: post_address_def s1_def Let_def)
    next
      case (Some r)
      obtain i s2 where r: "r = (i, s2)" by (cases r)
      note ins = Some [unfolded r]
      have res: "snd (post_address schedule now b s) = updateCustomerAddressFlags cid s2"
        using True cid second ins
        by (cases schedule; cases "truthy (p_is_primary b)")
           (simp_all add: post_address_def s1_def Let_def)
      have pk2: "pk_ok s2" using pk_ok_insert_address [OF ins pk1] .
      have f2: "flags_ok_except cid s2"
        using flags_ok_exceptI [OF f1]
        by (rule flags_ok_except_frame)
           (simp_all add: insert_address_simps(1) [OF ins] address_count_insert_address [OF ins])
      show ?thesis
        unfolding res using pk2 f2 by (auto intro: flags_ok_update pk_ok_frame)
    qed
  qed
qed

lemma put_address_inv:
  assumes "pk_ok s" "flags_ok s"
  shows "pk_ok (snd (put_address now aid b s)) \<and> flags_ok (snd (put_address now aid b s))"
proof (cases "validateAddress b = []")
  case False
  with assms show ?thesis by (simp add: put_address_def)
next
  case True
  show ?thesis
  proof (cases "find (\<lambda>a. a_id a = aid) (addresses s)")
    case None
    with True assms show ?thesis by (simp add: put_address_def)
  next
    case (Some row)
    define s1 where "s1 = (if truthy (p_is_primary b)
      then clear_primary_except (customer_id row) aid s else s)"
    have pk1: "pk_ok s1" using assms(1) by (simp add: s1_def pk_ok_def)
    have f1: "flags_ok s1"
      using assms(2) by (rule flags_ok_frame) (simp_all add: s1_def)
    show ?thesis
    proof (cases "update_address now aid (sanitizeAddress b) s1")
      case None
      with True Some pk1 f1 show ?thesis
        by (simp add: put_address_def s1_def Let_def)
    next
      case upd0: (Some r)
      obtain n s2 where r: "r = (n, s2)" by (cases r)
      note upd = upd0 [unfolded r]
      have pk2: "pk_ok s2"
        using pk1 by (rule pk_ok_frame) (simp_all add: update_address_simps [OF upd])
      have f2: "flags_ok s2"
        using f1 by (rule flags_ok_frame)
          (simp_all add: update_address_simps [OF upd] address_count_update_address [OF upd])
      have "snd (put_address now aid b s) = s2 \<or>
            snd (put_address now aid b s) = updateCustomerAddressFlags (customer_id row) s2"
        using True Some upd by (simp add: put_address_def s1_def Let_def)
      moreover have "flags_ok (updateCustomerAddressFlags (customer_id row) s2)"
        using f2 by (intro flags_ok_update flags_ok_exceptI)
      moreover have "pk_ok (updateCustomerAddressFlags (customer_id row) s2)"
        using pk2 by (rule pk_ok_frame) simp_all
      ultimately show ?thesis
        using pk2 f2 by auto
    qed
  qed
qed

lemma delete_address_inv:
  assumes "pk_ok s" "flags_ok s"
  shows "pk_ok (snd (delete_address aid s)) \<and> flags_ok (snd (delete_address aid s))"
proof (cases "find (\<lambda>a. a_id a = aid) (addresses s)")
  case None
  with assms show ?thesis by (simp add: delete_address_def)
next
  case (Some row)
  define s1 where "s1 = delete_address_row aid s"
  have res: "snd (delete_address aid s) = updateCustomerAddressFlags (customer_id row) s1"
    using Some by (simp add: delete_address_def s1_def)
  have pk1: "pk_ok s1"
    using assms(1) by (rule pk_ok_filter_addresses) (simp_all add: s1_def)
  have d: "distinct (map a_id (addresses s))" using assms(1) by (simp add: pk_ok_def)
  have f1: "flags_ok_except (customer_id row) s1"
    using flags_ok_exceptI [OF assms(2)]
    by (rule flags_ok_except_frame)
       (simp_all add: s1_def address_count_delete_address_row [OF Some d]
          del: delete_address_row_simps(3))
  show ?thesis
    unfolding res using pk1 f1 by (auto intro: flags_ok_update pk_ok_frame)
qed

lemma pk_ok_init: "pk_ok init_db" and flags_ok_init: "flags_ok init_db"
  by (simp_all add: pk_ok_def flags_ok_def init_db_def)

lemma reachable_inv: "reachable s \<Longrightarrow> pk_ok s \<and> flags_ok s"
proof (induction rule: reachable.induct)
  case r_init
  show ?case by (simp add: pk_ok_init flags_ok_init)
next
  case (r_post_customer s order b isEmail now)
  then show ?case using post_customer_inv by blast
next
  case (r_put_customer s order b isEmail now cid)
  then show ?case using put_customer_inv by blast
next
  case (r_delete_customer s cid)
  then show ?case using delete_customer_inv by blast
next
  case (r_post_address s schedule now p)
  then show ?case using post_address_inv by blast
next
  case (r_put_address s now aid p)
  then show ?case using put_address_inv by blast
next
  case (r_delete_address s aid)
  then show ?case using delete_address_inv by blast
qed

subsection \<open>The address routes, step by step\<close>

lemma check_Nil [simp]: "(check ok msg = []) = ok"
  by (simp add: check_def)

lemma validateAddress_not_null:
  assumes "validateAddress b = []"
  shows "not_null (sanitizeAddress b)"
proof -
  from assms have "matches_digits 6 (toString (p_pin_code b))"
    by (simp add: validateAddress_def)
  then have "p_pin_code b \<noteq> None"
    by (cases "p_pin_code b") (simp_all add: matches_digits_def toString_def)
  then show ?thesis by (simp add: not_null_def sanitizeAddress_def)
qed

lemma sanitizeAddress_is_primary [simp]:
  "p_is_primary (sanitizeAddress b) = p_is_primary b"
  by (simp add: sanitizeAddress_def)

lemma customer_exists_clear_primary [simp]:
  "customer_exists c (clear_primary cid s) = customer_exists c s"
  by (simp add: customer_exists_def split: option.splits)

lemma clear_primary_no_primaries [simp]:
  "filter (\<lambda>a. customer_id a = cid \<and> is_primary a) (addresses (clear_primary cid s)) = []"
proof -
  have "filter (\<lambda>a. customer_id a = cid \<and> is_primary a)
          (map (\<lambda>a. if customer_id a = cid then a\<lparr>is_primary := False\<rparr> else a) xs) = []" for xs
    by (induction xs) simp_all
  then show ?thesis by (simp add: clear_primary_def)
qed

lemma filter_map_other:
  assumes "\<And>a. P (f a) = P a" "\<And>a. P a \<Longrightarrow> f a = a"
  shows "filter P (map f xs) = filter P xs"
  using assms by (induction xs) auto

lemma clear_primary_others [simp]:
  "filter (\<lambda>a. customer_id a \<noteq> cid) (addresses (clear_primary cid s)) =
   filter (\<lambda>a. customer_id a \<noteq> cid) (addresses s)"
  unfolding clear_primary_def by (simp, rule filter_map_other) auto

lemma post_address_accepted:
  assumes "validateAddress b = []" "p_customer_id b = Some cid" "customer_exists (Some cid) s"
    and "\<not> (truthy (p_is_primary b) \<and> schedule = InsertBeforeUpdate)"
  defines "s1 \<equiv> (if truthy (p_is_primary b) then clear_primary cid s else s)"
  defines "i \<equiv> next_rowid (addresses_seq s) (map a_id (addresses s))"
  shows "post_address schedule now b s =
     (reply_id 201 ''Address created successfully'' i,
      updateCustomerAddressFlags cid
        (s1\<lparr>addresses := addresses s1 @ [address_row i now cid (sanitizeAddress b)],
            addresses_seq := i\<rparr>))"
proof -
  have "insert_address now cid (sanitizeAddress b) s1 =
        Some (i, s1\<lparr>addresses := addresses s1 @ [address_row i now cid (sanitizeAddress b)],
                    addresses_seq := i\<rparr>)"
    using assms(3) validateAddress_not_null [OF assms(1)]
    by (simp add: insert_address_def s1_def i_def Let_def)
  with assms(1-4) show ?thesis
    by (cases schedule; cases "truthy (p_is_primary b)")
       (simp_all add: post_address_def s1_def Let_def)
qed

lemma post_address_accepted_insert_first:
  assumes "validateAddress b = []" "p_customer_id b = Some cid" "customer_exists (Some cid) s"
    and "truthy (p_is_primary b)"
  defines "i \<equiv> next_rowid (addresses_seq s) (map a_id (addresses s))"
  shows "post_address InsertBeforeUpdate now b s =
     (reply_id 201 ''Address created successfully'' i,
      updateCustomerAddressFlags cid
        (clear_primary cid
          (s\<lparr>addresses := addresses s @ [address_row i now cid (sanitizeAddress b)],
             addresses_seq := i\<rparr>)))"
proof -
  have "insert_address now cid (sanitizeAddress b) s =
        Some (i, s\<lparr>addresses := addresses s @ [address_row i now cid (sanitizeAddress b)],
                   addresses_seq := i\<rparr>)"
    using assms(3) validateAddress_not_null [OF assms(1)]
    by (simp add: insert_address_def i_def Let_def)
  with assms(1-4) show ?thesis
    by (simp add: post_address_def)
qed

text \<open>
  The clearing UPDATE and the flag recompute commute, so it does not matter which of the
  two the driver runs first after the INSERT.
\<close>

lemma clear_primary_flags_commute:
  "clear_primary cid (updateCustomerAddressFlags k s) =
   updateCustomerAddressFlags k (clear_primary cid s)"
proof -
  have "clear_primary cid (s\<lparr>customers := cs\<rparr>) = (clear_primary cid s)\<lparr>customers := cs\<rparr>"
    for cs
    by (simp add: clear_primary_def)
  then show ?thesis
    by (simp add: updateCustomerAddressFlags_def)
qed


subsection \<open>What an address update leaves alone\<close>

lemma filter_map_other_set:
  assumes "\<And>a. a \<in> set xs \<Longrightarrow> P (f a) = P a" "\<And>a. a \<in> set xs \<Longrightarrow> P a \<Longrightarrow> f a = a"
  shows "filter P (map f xs) = filter P xs"
  using assms by (induction xs) auto

lemma update_address_others:
  assumes "update_address now aid p s = Some (n, s')"
  shows "filter (\<lambda>a. a_id a \<noteq> aid) (addresses s') = filter (\<lambda>a. a_id a \<noteq> aid) (addresses s)"
proof -
  from assms have "addresses s' = map (\<lambda>a. if a_id a = aid
             then a\<lparr>address_line1 := toString (p_address_line1 p),
                    address_line2 := or_default (p_address_line2 p) [],
                    city := toString (p_city p),
                    state := toString (p_state p),
                    pin_code := toString (p_pin_code p),
                    country := or_default (p_country p) ''India'',
                    is_primary := truthy (p_is_primary p),
                    a_updated_at := now\<rparr>
             else a) (addresses s)"
    by (auto simp: update_address_def split: if_splits)
  then show ?thesis
    by (simp only:) (rule filter_map_other, simp_all)
qed

lemma update_address_other_owners:
  assumes "update_address now aid p s = Some (n, s')"
    and "\<And>a. a \<in> set (addresses s) \<Longrightarrow> a_id a = aid \<Longrightarrow> customer_id a = owner"
  shows "filter (\<lambda>a. customer_id a \<noteq> owner) (addresses s') =
         filter (\<lambda>a. customer_id a \<noteq> owner) (addresses s)"
proof -
  from assms(1) have "addresses s' = map (\<lambda>a. if a_id a = aid
             then a\<lparr>address_line1 := toString (p_address_line1 p),
                    address_line2 := or_default (p_address_line2 p) [],
                    city := toString (p_city p),
                    state := toString (p_state p),
                    pin_code := toString (p_pin_code p),
                    country := or_default (p_country p) ''India'',
                    is_primary := truthy (p_is_primary p),
                    a_updated_at := now\<rparr>
             else a) (addresses s)"
    by (auto simp: update_address_def split: if_splits)
  moreover have "a_id a \<noteq> aid" if "a \<in> set (addresses s)" "customer_id a \<noteq> owner" for a
    using assms(2) [OF that(1)] that(2) by auto
  ultimately show ?thesis
    by (simp only:) (rule filter_map_other_set, simp_all)
qed

lemma clear_primary_except_owner:
  assumes "\<And>a. a \<in> set (addresses s) \<Longrightarrow> a_id a = aid \<Longrightarrow> customer_id a = owner"
    and "a \<in> set (addresses (clear_primary_except cid x s))" and "a_id a = aid"
  shows "customer_id a = owner"
  using assms by (auto simp: clear_primary_except_def split: if_splits)

lemma clear_primary_except_others [simp]:
  "filter (\<lambda>a. customer_id a \<noteq> cid) (addresses (clear_primary_except cid aid s)) =
   filter (\<lambda>a. customer_id a \<noteq> cid) (addresses s)"
  unfolding clear_primary_except_def by (simp, rule filter_map_other) auto

lemma updateCustomerAddressFlags_others [simp]:
  "filter (\<lambda>c. c_id c \<noteq> cid) (customers (updateCustomerAddressFlags cid s)) =
   filter (\<lambda>c. c_id c \<noteq> cid) (customers s)"
  unfolding updateCustomerAddressFlags_def by (simp, rule filter_map_other) auto

lemma updateCustomerAddressFlags_fields [simp]:
  "map (\<lambda>c. c\<lparr>has_multiple_addresses := x, only_one_address := y\<rparr>)
     (customers (updateCustomerAddressFlags cid s)) =
   map (\<lambda>c. c\<lparr>has_multiple_addresses := x, only_one_address := y\<rparr>) (customers s)"
  by (simp add: updateCustomerAddressFlags_def o_def cong: if_cong)


lemma put_address_frame_aux:
  assumes "distinct (map a_id (addresses s))"
    and "find (\<lambda>a. a_id a = aid) (addresses s) = Some row"
  shows "map a_id (addresses (snd (put_address now aid b s))) = map a_id (addresses s) \<and>
     map customer_id (addresses (snd (put_address now aid b s))) =
       map customer_id (addresses s) \<and>
     filter (\<lambda>a. customer_id a \<noteq> customer_id row) (addresses (snd (put_address now aid b s))) =
       filter (\<lambda>a. customer_id a \<noteq> customer_id row) (addresses s) \<and>
     filter (\<lambda>c. c_id c \<noteq> customer_id row) (customers (snd (put_address now aid b s))) =
       filter (\<lambda>c. c_id c \<noteq> customer_id row) (customers s) \<and>
     map (\<lambda>c. c\<lparr>has_multiple_addresses := False, only_one_address := False\<rparr>)
         (customers (snd (put_address now aid b s))) =
       map (\<lambda>c. c\<lparr>has_multiple_addresses := False, only_one_address := False\<rparr>)
         (customers s)"
proof (cases "validateAddress b = []")
  case False
  then show ?thesis by (simp add: put_address_def)
next
  case True
  define s1 where "s1 = (if truthy (p_is_primary b)
    then clear_primary_except (customer_id row) aid s else s)"
  have s1: "map a_id (addresses s1) = map a_id (addresses s)"
    "map customer_id (addresses s1) = map customer_id (addresses s)"
    "filter (\<lambda>a. customer_id a \<noteq> customer_id row) (addresses s1) =
       filter (\<lambda>a. customer_id a \<noteq> customer_id row) (addresses s)"
    "customers s1 = customers s"
    by (simp_all add: s1_def)
  show ?thesis
  proof (cases "update_address now aid (sanitizeAddress b) s1")
    case None
    then have "snd (put_address now aid b s) = s1"
      using True assms(2) by (simp add: put_address_def s1_def Let_def)
    with s1 show ?thesis by simp
  next
    case (Some r)
    obtain n s2 where r: "r = (n, s2)" by (cases r)
    note upd = Some [unfolded r]
    have own: "customer_id a = customer_id row"
      if "a \<in> set (addresses s)" "a_id a = aid" for a
      using find_a_id [OF assms(2,1) that] by simp
    have own1: "customer_id a = customer_id row"
      if "a \<in> set (addresses s1)" "a_id a = aid" for a
      using that own clear_primary_except_owner [of s aid "customer_id row" a "customer_id row" aid]
      by (auto simp: s1_def split: if_splits)
    have s2: "map a_id (addresses s2) = map a_id (addresses s)"
      "map customer_id (addresses s2) = map customer_id (addresses s)"
      "filter (\<lambda>a. customer_id a \<noteq> customer_id row) (addresses s2) =
         filter (\<lambda>a. customer_id a \<noteq> customer_id row) (addresses s)"
      "customers s2 = customers s"
      using update_address_simps [OF upd] s1
        update_address_other_owners [OF upd own1]
      by simp_all
    have "snd (put_address now aid b s) = s2 \<or>
          snd (put_address now aid b s) = updateCustomerAddressFlags (customer_id row) s2"
      using True assms(2) upd by (simp add: put_address_def s1_def Let_def)
    then show ?thesis
    proof
      assume "snd (put_address now aid b s) = s2"
      with s2 show ?thesis by simp
    next
      assume "snd (put_address now aid b s) = updateCustomerAddressFlags (customer_id row) s2"
      with s2 show ?thesis by simp
    qed
  qed
qed

subsection \<open>The example stores\<close>

lemma permutes_as_issued [simp]: "permutes as_issued ps"
  by (simp add: permutes_def as_issued_def)

lemma permutes_rev [simp]: "permutes rev ps"
  by (simp add: permutes_def)

lemma reachable_db_ann: "reachable db_ann"
  unfolding db_ann_def by (intro reachable.intros permutes_as_issued)

lemma reachable_db_ann2: "reachable db_ann2"
  unfolding db_ann2_def by (intro reachable.intros reachable_db_ann)

lemma reachable_db_two: "reachable db_two"
  unfolding db_two_def by (intro reachable.intros reachable_db_ann2 permutes_as_issued)

lemma customers_db_ann2: "customers db_ann2 = [ann_row]"
  by code_simp

subsection \<open>The customer routes, step by step\<close>

lemma address_row_a_id [simp]: "(address_row i now cid p)\<lparr>a_id := j\<rparr> = address_row j now cid p"
  by (simp add: address_row_def)

lemma address_row_customer_id [simp]: "customer_id (address_row i now cid p) = cid"
  by (simp add: address_row_def)

lemma insert_addresses_rows:
  assumes "customer_exists (Some cid) s \<or> \<not> foreign_keys s"
  shows "\<exists>rows. addresses (insert_addresses now cid ps s) = addresses s @ rows \<and>
           map (\<lambda>a. a\<lparr>a_id := 0\<rparr>) rows = map (address_row 0 now cid) (filter not_null ps) \<and>
           (\<forall>r\<in>set rows. customer_id r = cid)"
  using assms
proof (induction ps arbitrary: s)
  case Nil
  then show ?case by simp
next
  case (Cons p ps)
  show ?case
  proof (cases "not_null p")
    case False
    then have "insert_address now cid p s = None" by (simp add: insert_address_def)
    with Cons False show ?thesis by simp
  next
    case True
    define i where "i = next_rowid (addresses_seq s) (map a_id (addresses s))"
    define s1 where "s1 = s\<lparr>addresses := addresses s @ [address_row i now cid p],
                            addresses_seq := i\<rparr>"
    have ins: "insert_address now cid p s = Some (i, s1)"
      using True Cons.prems by (simp add: insert_address_def i_def s1_def Let_def)
    have "customer_exists (Some cid) s1 \<or> \<not> foreign_keys s1"
      using Cons.prems by (simp add: s1_def customer_exists_def)
    from Cons.IH [OF this] obtain rows where
      rows: "addresses (insert_addresses now cid ps s1) = addresses s1 @ rows"
        "map (\<lambda>a. a\<lparr>a_id := 0\<rparr>) rows = map (address_row 0 now cid) (filter not_null ps)"
        "\<forall>r\<in>set rows. customer_id r = cid"
      by blast
    have "addresses (insert_addresses now cid (p # ps) s) =
          addresses s @ (address_row i now cid p # rows)"
      using ins rows(1) by (simp add: s1_def)
    moreover have "map (\<lambda>a. a\<lparr>a_id := 0\<rparr>) (address_row i now cid p # rows) =
          map (address_row 0 now cid) (filter not_null (p # ps))"
      using True rows(2) by simp
    moreover have "\<forall>r\<in>set (address_row i now cid p # rows). customer_id r = cid"
      using rows(3) by simp
    ultimately show ?thesis by blast
  qed
qed

lemma put_customer_accepted:
  assumes "status (fst (put_customer isEmail order now cid b s)) = 200"
  shows "\<exists>n s1. update_customer now cid (trim (toString (first_name b)))
             (trim (toString (last_name b))) (toString (phone_number b)) (email b) s = Some (n, s1) \<and>
           customer_exists (Some cid) s \<and>
           snd (put_customer isEmail order now cid b s) =
             updateCustomerAddressFlags cid
               (if supplied (addresses_in b) \<noteq> []
                then insert_addresses now cid (order (supplied (addresses_in b)))
                       (delete_addresses_of cid s1)
                else delete_addresses_of cid s1)"
  using assms
  by (auto simp: put_customer_def updateCustomer_def reply_def reply_id_def
      updateAddressFlags_eq split: if_splits option.splits)

lemma customer_exists_ids:
  "customer_exists (Some i) s = (i \<in> set (map c_id (customers s)))"
  by (auto simp: customer_exists_def)

lemma filter_filter_neg [simp]:
  "filter (\<lambda>a. customer_id a = cid) (filter (\<lambda>a. customer_id a \<noteq> cid) xs) = []"
  by (induction xs) simp_all

lemma filter_all_owned:
  "\<forall>r\<in>set rows. customer_id r = cid \<Longrightarrow>
   filter (\<lambda>a. customer_id a = cid) rows = rows \<and> filter (\<lambda>a. customer_id a \<noteq> cid) rows = []"
  by (induction rows) simp_all


subsection \<open>Foreign-key enforcement\<close>

lemma foreign_keys_post_customer:
  "foreign_keys (snd (post_customer isEmail order now b s)) = foreign_keys s"
  by (auto simp: post_customer_def createCustomerWithAddresses_def updateAddressFlags_eq
      insert_customer_simps(2) split: option.splits)

lemma foreign_keys_put_customer:
  "foreign_keys (snd (put_customer isEmail order now cid b s)) = foreign_keys s"
  by (auto simp: put_customer_def updateCustomer_def updateAddressFlags_eq
      update_customer_simps(2) split: option.splits)

lemma foreign_keys_delete_customer:
  "foreign_keys (snd (delete_customer cid s)) = foreign_keys s"
  by (simp add: delete_customer_def delete_customer_row_def)

lemma foreign_keys_post_address:
  "foreign_keys (snd (post_address schedule now b s)) = foreign_keys s"
  by (auto simp: post_address_def Let_def insert_address_simps(2) split: option.splits)

lemma foreign_keys_put_address:
  "foreign_keys (snd (put_address now aid b s)) = foreign_keys s"
  by (auto simp: put_address_def Let_def update_address_simps(2) split: option.splits)

lemma foreign_keys_delete_address:
  "foreign_keys (snd (delete_address aid s)) = foreign_keys s"
  by (simp add: delete_address_def split: option.splits)

lemma reachable_foreign_keys_off: "reachable s \<Longrightarrow> \<not> foreign_keys s"
  by (induction rule: reachable.induct)
     (simp_all add: init_db_def foreign_keys_post_customer foreign_keys_put_customer
        foreign_keys_delete_customer foreign_keys_post_address foreign_keys_put_address
        foreign_keys_delete_address)

lemma delete_customer_without_enforcement:
  "\<not> foreign_keys s \<Longrightarrow> addresses (snd (delete_customer cid s)) = addresses s"
  by (simp add: delete_customer_def delete_customer_row_def)

lemma delete_customer_with_enforcement:
  assumes "foreign_keys s" "customer_exists (Some cid) s"
  shows "address_count cid (snd (delete_customer cid s)) = 0"
proof -
  have "filter (\<lambda>a. customer_id a = cid) (filter (\<lambda>a. customer_id a \<noteq> cid) xs) = []" for xs
    by simp
  with assms show ?thesis
    by (simp add: delete_customer_def delete_customer_row_def address_count_def)
qed

lemma get_customer_after_delete:
  assumes "customer_exists (Some cid) s"
  shows "fst (delete_customer cid s) = reply 200 ''Customer deleted successfully'' \<and>
   get_customer cid (snd (delete_customer cid s)) = Inl (reply 404 ''Customer not found'')"
proof -
  have gone: "find (\<lambda>c. c_id c = cid) (filter (\<lambda>c. c_id c \<noteq> cid) xs) = None" for xs
    by (simp add: find_None_iff)
  from assms show ?thesis
    by (simp add: delete_customer_def delete_customer_row_def get_customer_def gone)
qed

subsection \<open>The address routes keep at most one primary address per owner\<close>

lemma primaries_empty: "\<forall>a\<in>set (addresses s). customer_id a \<noteq> k \<Longrightarrow> primaries k s = []"
  by (simp add: primaries_def filter_empty_conv)

lemma primary_ok_all: "primary_ok s = (\<forall>k. length (primaries k s) \<le> 1)"
proof
  assume ok: "primary_ok s"
  show "\<forall>k. length (primaries k s) \<le> 1"
  proof
    fix k
    show "length (primaries k s) \<le> 1"
    proof (cases "\<exists>a\<in>set (addresses s). customer_id a = k")
      case True
      with ok show ?thesis by (auto simp: primary_ok_def)
    next
      case False
      then have "primaries k s = []" by (intro primaries_empty) auto
      then show ?thesis by simp
    qed
  qed
next
  assume "\<forall>k. length (primaries k s) \<le> 1"
  then show "primary_ok s" by (simp add: primary_ok_def)
qed

lemma length_filter_map_le:
  assumes "\<And>x. x \<in> set xs \<Longrightarrow> P (g x) \<Longrightarrow> Q x"
  shows "length (filter P (map g xs)) \<le> length (filter Q xs)"
  using assms
proof (induction xs)
  case Nil
  then show ?case by simp
next
  case (Cons x xs)
  then have "length (filter P (map g xs)) \<le> length (filter Q xs)" by simp
  moreover have "P (g x) \<Longrightarrow> Q x" using Cons.prems by simp
  ultimately show ?case by auto
qed

lemma length_filter_id_le:
  assumes "distinct (map a_id xs)"
  shows "length (filter (\<lambda>a. a_id a = aid) xs) \<le> 1"
  using assms
proof (induction xs)
  case Nil
  then show ?case by simp
next
  case (Cons x xs)
  show ?case
  proof (cases "a_id x = aid")
    case True
    with Cons.prems have "aid \<notin> a_id ` set xs" by simp
    then have "\<forall>a\<in>set xs. a_id a \<noteq> aid" by blast
    then have "filter (\<lambda>a. a_id a = aid) xs = []" by (simp add: filter_empty_conv)
    with True show ?thesis by simp
  next
    case False
    with Cons show ?thesis by simp
  qed
qed

lemma primaries_length:
  "length (primaries k s) = length (filter (\<lambda>a. customer_id a = k \<and> is_primary a) (addresses s))"
  by (simp add: primaries_def)

lemma primaries_clear_primary:
  "length (primaries k (clear_primary cid s)) = (if k = cid then 0 else length (primaries k s))"
proof (cases "k = cid")
  case True
  then show ?thesis by (simp add: primaries_length)
next
  case False
  have same: "filter (\<lambda>a. customer_id a = k \<and> is_primary a)
          (map (\<lambda>a. if customer_id a = cid then a\<lparr>is_primary := False\<rparr> else a) xs) =
        filter (\<lambda>a. customer_id a = k \<and> is_primary a) xs" for xs
    using False by (intro filter_map_other) auto
  from False show ?thesis
    by (simp add: primaries_length clear_primary_def same del: length_filter_map)
qed

lemma primary_ok_post_address:
  assumes "primary_ok s"
  shows "primary_ok (snd (post_address schedule now b s))"
proof (cases "validateAddress b = [] \<and> customer_exists (p_customer_id b) s")
  case False
  with assms show ?thesis
    by (auto simp: post_address_def customer_exists_def split: option.splits)
next
  case True
  then obtain cid where cid: "p_customer_id b = Some cid"
    by (auto simp: customer_exists_def split: option.splits)
  from True cid have ex: "customer_exists (Some cid) s" by simp
  have old: "length (primaries k s) \<le> 1" for k
    using assms by (simp add: primary_ok_all)
  have v: "validateAddress b = []" using True by simp
  have "length (primaries k (snd (post_address schedule now b s))) \<le> 1" for k
  proof (cases "truthy (p_is_primary b)")
    case False
    then have "\<not> (truthy (p_is_primary b) \<and> schedule = InsertBeforeUpdate)" by simp
    note acc = post_address_accepted [OF v cid ex this, of now]
    from False have "addresses (snd (post_address schedule now b s)) =
      addresses s @ [address_row (next_rowid (addresses_seq s) (map a_id (addresses s))) now cid
        (sanitizeAddress b)]"
      by (simp add: acc)
    moreover have "\<not> is_primary (address_row i now cid (sanitizeAddress b))" for i
      using False by (simp add: address_row_def)
    ultimately have "length (primaries k (snd (post_address schedule now b s))) = length (primaries k s)"
      by (simp add: primaries_length)
    with old [of k] show ?thesis by simp
  next
    case t: True
    show ?thesis
    proof (cases schedule)
      case UpdateBeforeInsert
      then have "\<not> (truthy (p_is_primary b) \<and> schedule = InsertBeforeUpdate)" by simp
      note acc = post_address_accepted [OF v cid ex this, of now]
      from t have "addresses (snd (post_address schedule now b s)) =
        addresses (clear_primary cid s) @
          [address_row (next_rowid (addresses_seq s) (map a_id (addresses s))) now cid
            (sanitizeAddress b)]"
        by (simp add: acc)
      then have "length (primaries k (snd (post_address schedule now b s))) =
        length (primaries k (clear_primary cid s)) + (if k = cid then 1 else 0)"
        using t by (simp add: primaries_length address_row_def)
      with old [of k] show ?thesis by (simp add: primaries_clear_primary)
    next
      case InsertBeforeUpdate
      define s2 where "s2 = s\<lparr>addresses := addresses s @
          [address_row (next_rowid (addresses_seq s) (map a_id (addresses s))) now cid
            (sanitizeAddress b)],
        addresses_seq := next_rowid (addresses_seq s) (map a_id (addresses s))\<rparr>"
      have "length (primaries k (snd (post_address schedule now b s))) =
        length (primaries k (clear_primary cid s2))"
        using InsertBeforeUpdate post_address_accepted_insert_first [OF v cid ex t, of now]
        by (simp add: primaries_length s2_def)
      also have "\<dots> = (if k = cid then 0 else length (primaries k s2))"
        by (rule primaries_clear_primary)
      also have "\<dots> \<le> length (primaries k s)"
        by (simp add: primaries_length s2_def)
      finally show ?thesis using old [of k] by simp
    qed
  qed
  then show ?thesis by (simp add: primary_ok_all)
qed

lemma length_filter_conj_le:
  "length (filter (\<lambda>x. P x \<and> R x) xs) \<le> length (filter R xs)"
  by (induction xs) auto

lemma primary_ok_cong: "addresses s' = addresses s \<Longrightarrow> primary_ok s' = primary_ok s"
  by (simp add: primary_ok_def primaries_def)

lemma primary_ok_filter:
  assumes "primary_ok s" "addresses s' = filter P (addresses s)"
  shows "primary_ok s'"
proof -
  have "length (primaries k s') \<le> length (primaries k s)" for k
    unfolding primaries_length assms(2) filter_filter
    by (rule length_filter_conj_le)
  moreover have "length (primaries k s) \<le> 1" for k
    using assms(1) by (simp add: primary_ok_all)
  ultimately have "length (primaries k s') \<le> 1" for k
    using le_trans by blast
  then show ?thesis by (simp add: primary_ok_all)
qed

lemma addresses_delete_address:
  "addresses (snd (delete_address aid s)) = filter (\<lambda>a. a_id a \<noteq> aid) (addresses s)"
proof (cases "find (\<lambda>a. a_id a = aid) (addresses s)")
  case None
  then have "\<forall>a\<in>set (addresses s). a_id a \<noteq> aid" by (simp add: find_None_iff)
  then have "filter (\<lambda>a. a_id a \<noteq> aid) (addresses s) = addresses s" by simp
  with None show ?thesis by (simp add: delete_address_def)
next
  case (Some row)
  then show ?thesis by (simp add: delete_address_def)
qed

lemma primary_ok_delete_address:
  "primary_ok s \<Longrightarrow> primary_ok (snd (delete_address aid s))"
  by (rule primary_ok_filter [OF _ addresses_delete_address])

lemma primary_ok_delete_customer:
  assumes "primary_ok s"
  shows "primary_ok (snd (delete_customer cid s))"
proof -
  have "addresses (snd (delete_customer cid s)) = addresses s \<or>
        addresses (snd (delete_customer cid s)) = filter (\<lambda>a. customer_id a \<noteq> cid) (addresses s)"
    by (simp add: delete_customer_def delete_customer_row_def)
  then show ?thesis
  proof
    assume "addresses (snd (delete_customer cid s)) = addresses s"
    from primary_ok_cong [OF this] assms show ?thesis by simp
  next
    assume "addresses (snd (delete_customer cid s)) =
      filter (\<lambda>a. customer_id a \<noteq> cid) (addresses s)"
    with assms show ?thesis by (rule primary_ok_filter)
  qed
qed


lemma primary_ok_put_address:
  assumes "pk_ok s" "primary_ok s"
  shows "primary_ok (snd (put_address now aid b s))"
proof (cases "validateAddress b = []")
  case False
  with assms(2) show ?thesis by (simp add: put_address_def)
next
  case True
  show ?thesis
  proof (cases "find (\<lambda>a. a_id a = aid) (addresses s)")
    case None
    with True assms(2) show ?thesis by (simp add: put_address_def)
  next
    case (Some row)
    define g :: "address \<Rightarrow> address" where "g = (\<lambda>a. if truthy (p_is_primary b) \<and> customer_id a = (customer_id row) \<and> a_id a \<noteq> aid
      then a\<lparr>is_primary := False\<rparr> else a)"
    define h :: "address \<Rightarrow> address" where "h = (\<lambda>a. if a_id a = aid
             then a\<lparr>address_line1 := toString (p_address_line1 (sanitizeAddress b)),
                    address_line2 := or_default (p_address_line2 (sanitizeAddress b)) [],
                    city := toString (p_city (sanitizeAddress b)),
                    state := toString (p_state (sanitizeAddress b)),
                    pin_code := toString (p_pin_code (sanitizeAddress b)),
                    country := or_default (p_country (sanitizeAddress b)) ''India'',
                    is_primary := truthy (p_is_primary b),
                    a_updated_at := now\<rparr>
             else a)"
    define s1 where "s1 = (if truthy (p_is_primary b)
      then clear_primary_except (customer_id row) aid s else s)"
    have a1: "addresses s1 = map g (addresses s)"
      by (simp add: s1_def g_def clear_primary_except_def)
    have old: "length (primaries k s) \<le> 1" for k
      using assms(2) by (simp add: primary_ok_all)
    have d: "distinct (map a_id (addresses s))" using assms(1) by (simp add: pk_ok_def)
    have one: "length (filter (\<lambda>a. a_id a = aid) (addresses s)) \<le> 1"
      using d by (rule length_filter_id_le)
    have own: "customer_id a = (customer_id row)" if "a \<in> set (addresses s)" "a_id a = aid" for a
      using find_a_id [OF Some d that] by simp
    have "length (primaries k s1) \<le> length (primaries k s)" for k
      unfolding primaries_length a1
      by (rule length_filter_map_le) (auto simp: g_def split: if_splits)
    with old have "length (primaries k s1) \<le> 1" for k
      using le_trans by blast
    then have pk1: "primary_ok s1" by (simp add: primary_ok_all)
    show ?thesis
    proof (cases "update_address now aid (sanitizeAddress b) s1")
      case None
      then have "snd (put_address now aid b s) = s1"
        using True Some by (simp add: put_address_def s1_def Let_def)
      with pk1 show ?thesis by simp
    next
      case upd0: (Some r)
      obtain n s2 where r: "r = (n, s2)" by (cases r)
      note upd = upd0 [unfolded r]
      have "addresses s2 = map h (addresses s1)"
        using upd by (auto simp: update_address_def h_def split: if_splits)
      then have a2: "addresses s2 = map (\<lambda>a. h (g a)) (addresses s)"
        by (simp add: a1 o_def)
      have "length (primaries k s2) \<le> 1" for k
      proof (cases "truthy (p_is_primary b) \<and> k = (customer_id row)")
        case False
        have "length (primaries k s2) \<le> length (primaries k s)"
          unfolding primaries_length a2
        proof (rule length_filter_map_le)
          fix x assume x: "x \<in> set (addresses s)"
            and p: "customer_id (h (g x)) = k \<and> is_primary (h (g x))"
          show "customer_id x = k \<and> is_primary x"
          proof (cases "a_id x = aid")
            case True
            with x have "customer_id x = (customer_id row)" by (rule own)
            with True p False show ?thesis by (auto simp: g_def h_def split: if_splits)
          next
            case ne: False
            with p show ?thesis by (auto simp: g_def h_def split: if_splits)
          qed
        qed
        with old [of k] show ?thesis by simp
      next
        case True
        have "length (primaries k s2) \<le> length (filter (\<lambda>a. a_id a = aid) (addresses s))"
          unfolding primaries_length a2
          using True by (intro length_filter_map_le) (auto simp: g_def h_def split: if_splits)
        with one show ?thesis by simp
      qed
      then have pk2: "primary_ok s2" by (simp add: primary_ok_all)
      have "snd (put_address now aid b s) = s2 \<or>
            snd (put_address now aid b s) = updateCustomerAddressFlags (customer_id row) s2"
        using True Some upd by (simp add: put_address_def s1_def Let_def)
      then show ?thesis
      proof
        assume "snd (put_address now aid b s) = s2"
        with pk2 show ?thesis by simp
      next
        assume e: "snd (put_address now aid b s) = updateCustomerAddressFlags (customer_id row) s2"
        have "addresses (updateCustomerAddressFlags (customer_id row) s2) = addresses s2" by simp
        from primary_ok_cong [OF this] pk2 e show ?thesis by simp
      qed
    qed
  qed
qed

subsection \<open>What an accepted customer update stores\<close>

lemma put_customer_addresses:
  assumes "status (fst (put_customer isEmail order now cid b s)) = 200"
    and "permutes order (supplied (addresses_in b))"
  shows "map (\<lambda>a. a\<lparr>a_id := 0\<rparr>)
           (filter (\<lambda>a. customer_id a = cid)
              (addresses (snd (put_customer isEmail order now cid b s)))) =
         map (address_row 0 now cid) (filter not_null (order (supplied (addresses_in b)))) \<and>
         filter (\<lambda>a. customer_id a \<noteq> cid)
           (addresses (snd (put_customer isEmail order now cid b s))) =
         filter (\<lambda>a. customer_id a \<noteq> cid) (addresses s)"
proof -
  from put_customer_accepted [OF assms(1)] obtain n s1 where
    upd: "update_customer now cid (trim (toString (first_name b)))
             (trim (toString (last_name b))) (toString (phone_number b)) (email b) s = Some (n, s1)"
    and ex: "customer_exists (Some cid) s"
    and res: "snd (put_customer isEmail order now cid b s) =
             updateCustomerAddressFlags cid
               (if supplied (addresses_in b) \<noteq> []
                then insert_addresses now cid (order (supplied (addresses_in b)))
                       (delete_addresses_of cid s1)
                else delete_addresses_of cid s1)"
    by blast
  define s2 where "s2 = delete_addresses_of cid s1"
  have a2: "addresses s2 = filter (\<lambda>a. customer_id a \<noteq> cid) (addresses s)"
    by (simp add: s2_def update_customer_simps(1) [OF upd])
  have "map c_id (customers s2) = map c_id (customers s)"
    by (simp add: s2_def update_customer_simps(3) [OF upd])
  with ex have "customer_exists (Some cid) s2"
    by (simp only: customer_exists_ids)
  from insert_addresses_rows [of cid s2 now "order (supplied (addresses_in b))"] this
  obtain rows where
    rows: "addresses (insert_addresses now cid (order (supplied (addresses_in b))) s2) =
             addresses s2 @ rows"
      "map (\<lambda>a. a\<lparr>a_id := 0\<rparr>) rows =
         map (address_row 0 now cid) (filter not_null (order (supplied (addresses_in b))))"
      "\<forall>r\<in>set rows. customer_id r = cid"
    by blast
  show ?thesis
  proof (cases "supplied (addresses_in b) = []")
    case True
    with assms(2) have "order (supplied (addresses_in b)) = []"
      by (simp add: permutes_def)
    moreover from True have "addresses (snd (put_customer isEmail order now cid b s)) =
        addresses s2"
      by (simp add: res s2_def)
    ultimately show ?thesis using a2 by simp
  next
    case False
    with rows(1) have "addresses (snd (put_customer isEmail order now cid b s)) =
        addresses s2 @ rows"
      by (simp add: res s2_def)
    with a2 rows(2) filter_all_owned [OF rows(3)] False show ?thesis by simp
  qed
qed

subsection \<open>Creating a primary address under either order of the two statements\<close>

lemma post_address_update_first_only_primary:
  assumes "validateAddress b = []" and "p_customer_id b = Some cid"
    and "customer_exists (Some cid) s" and "p_is_primary b = Some True"
  shows "fst (post_address UpdateBeforeInsert now b s) =
           reply_id 201 ''Address created successfully''
             (next_rowid (addresses_seq s) (map a_id (addresses s))) \<and>
         next_rowid (addresses_seq s) (map a_id (addresses s)) \<notin> set (map a_id (addresses s)) \<and>
         map a_id (addresses (snd (post_address UpdateBeforeInsert now b s))) =
           map a_id (addresses s) @ [next_rowid (addresses_seq s) (map a_id (addresses s))] \<and>
         primaries cid (snd (post_address UpdateBeforeInsert now b s)) =
           [next_rowid (addresses_seq s) (map a_id (addresses s))] \<and>
         filter (\<lambda>a. customer_id a \<noteq> cid)
           (addresses (snd (post_address UpdateBeforeInsert now b s))) =
           filter (\<lambda>a. customer_id a \<noteq> cid) (addresses s)"
proof -
  define i where "i = next_rowid (addresses_seq s) (map a_id (addresses s))"
  have t: "truthy (p_is_primary b)" using assms(4) by (simp add: truthy_def)
  have acc: "post_address UpdateBeforeInsert now b s =
     (reply_id 201 ''Address created successfully'' i,
      updateCustomerAddressFlags cid
        ((clear_primary cid s)\<lparr>addresses := addresses (clear_primary cid s) @
            [address_row i now cid (sanitizeAddress b)], addresses_seq := i\<rparr>))"
    using post_address_accepted [OF assms(1-3), of UpdateBeforeInsert now] t
    by (simp add: i_def)
  have "i \<notin> set (map a_id (addresses s))"
    unfolding i_def by (rule next_rowid_notin)
  moreover have "map a_id (addresses (snd (post_address UpdateBeforeInsert now b s))) =
      map a_id (addresses s) @ [i]"
    by (simp add: acc address_row_def)
  moreover have "primaries cid (snd (post_address UpdateBeforeInsert now b s)) = [i]"
    by (simp add: acc t primaries_def address_row_def)
  moreover have "filter (\<lambda>a. customer_id a \<noteq> cid)
      (addresses (snd (post_address UpdateBeforeInsert now b s))) =
      filter (\<lambda>a. customer_id a \<noteq> cid) (addresses s)"
    by (simp add: acc address_row_def)
  ultimately show ?thesis unfolding i_def [symmetric] by (simp add: acc)
qed

lemma post_address_insert_first_no_primary:
  assumes "validateAddress b = []" and "p_customer_id b = Some cid"
    and "customer_exists (Some cid) s" and "p_is_primary b = Some True"
  shows "fst (post_address InsertBeforeUpdate now b s) =
           reply_id 201 ''Address created successfully''
             (next_rowid (addresses_seq s) (map a_id (addresses s))) \<and>
         map a_id (addresses (snd (post_address InsertBeforeUpdate now b s))) =
           map a_id (addresses s) @ [next_rowid (addresses_seq s) (map a_id (addresses s))] \<and>
         primaries cid (snd (post_address InsertBeforeUpdate now b s)) = []"
proof -
  have t: "truthy (p_is_primary b)" using assms(4) by (simp add: truthy_def)
  note acc = post_address_accepted_insert_first [OF assms(1-3) t, of now]
  have "map a_id (addresses (snd (post_address InsertBeforeUpdate now b s))) =
      map a_id (addresses s) @ [next_rowid (addresses_seq s) (map a_id (addresses s))]"
    by (simp add: acc address_row_def)
  moreover have "primaries cid (snd (post_address InsertBeforeUpdate now b s)) = []"
    by (simp add: acc primaries_def)
  ultimately show ?thesis by (simp add: acc)
qed

subsection \<open>The two UPDATEs of an address update commute\<close>

text \<open>
  \<^verbatim>\<open>router.put('/:id')\<close> issues the UPDATE that clears the other primaries and the
  UPDATE of the row side by side. Run in the other order they leave the same store and
  the same \<^verbatim>\<open>this.changes\<close>, and the clearing UPDATE commutes with the flag
  recompute, so \<open>put_address\<close> needs no schedule.
\<close>

lemma clear_primary_except_flags_commute:
  "clear_primary_except cid aid (updateCustomerAddressFlags k s) =
   updateCustomerAddressFlags k (clear_primary_except cid aid s)"
proof -
  have "clear_primary_except cid aid (s\<lparr>customers := cs\<rparr>) =
        (clear_primary_except cid aid s)\<lparr>customers := cs\<rparr>" for cs
    by (simp add: clear_primary_except_def)
  then show ?thesis
    by (simp add: updateCustomerAddressFlags_def)
qed

lemma put_address_updates_commute:
  "update_address now aid p (clear_primary_except cid aid s) =
   map_option (\<lambda>(n, s'). (n, clear_primary_except cid aid s')) (update_address now aid p s)"
proof -
  have "map (\<lambda>a. if a_id a = aid then f a else a)
          (map (\<lambda>a. if customer_id a = cid \<and> a_id a \<noteq> aid then a\<lparr>is_primary := False\<rparr> else a) xs) =
        map (\<lambda>a. if customer_id a = cid \<and> a_id a \<noteq> aid then a\<lparr>is_primary := False\<rparr> else a)
          (map (\<lambda>a. if a_id a = aid then f a else a) xs)"
    if "\<And>a. a_id (f a) = a_id a" for f :: "address \<Rightarrow> address" and xs
    using that by (induction xs) auto
  note com = this
  have ex: "(\<exists>a\<in>set xs. a_id a = aid) = (aid \<in> set (map a_id xs))" for xs :: "address list"
    by force
  have ids: "(\<exists>a\<in>set (addresses (clear_primary_except cid aid s)). a_id a = aid) =
             (\<exists>a\<in>set (addresses s). a_id a = aid)"
    unfolding ex by (simp only: clear_primary_except_simps)
  have len: "length (filter (\<lambda>a. a_id a = aid) xs) =
             length (filter (\<lambda>i. i = aid) (map a_id xs))" for xs :: "address list"
    by (simp add: o_def)
  have cnt: "length (filter (\<lambda>a. a_id a = aid) (addresses (clear_primary_except cid aid s))) =
             length (filter (\<lambda>a. a_id a = aid) (addresses s))"
    unfolding len by (simp only: clear_primary_except_simps)
  show ?thesis
    unfolding update_address_def ids cnt
    by (simp add: clear_primary_except_def com)
qed

section \<open>The claims\<close>

text \<open>
  C1 fails on the customer routes. Creating a customer on the empty store with two
  address entries that both carry \<open>is_primary = true\<close> is answered 201 and stores both
  rows as primary; updating a customer with the same list is answered 200 and does the
  same, in whichever order the driver runs the INSERTs. Neither handler of customers.js
  clears the other primaries, which the POST and PUT handlers of addresses.js do when
  they write a primary address: those two routes and both deletes keep at most one
  primary address per owner (\<open>primary_ok_post_address\<close>, \<open>primary_ok_put_address\<close>,
  \<open>primary_ok_delete_address\<close>, \<open>primary_ok_delete_customer\<close>).
\<close>

theorem post_customer_two_primaries:
  "fst (post_customer has_at as_issued 1 ann_two_primaries init_db) =
     reply_id 201 ''Customer created successfully'' 1 \<and>
   primaries 1 (snd (post_customer has_at as_issued 1 ann_two_primaries init_db)) = [1, 2] \<and>
   primaries 1 (snd (post_customer has_at rev 1 ann_two_primaries init_db)) = [1, 2] \<and>
   fst (put_customer has_at as_issued 2 1 ann_two_primaries db_ann) =
     reply_id 200 ''Customer updated successfully'' 1 \<and>
   primaries 1 (snd (put_customer has_at as_issued 2 1 ann_two_primaries db_ann)) = [2, 3] \<and>
   primaries 1 (snd (put_customer has_at rev 2 1 ann_two_primaries db_ann)) = [2, 3]"
  by code_simp

text \<open>
  C2. In every store reachable from the empty one through the routes (address create,
  update and delete, customer create with initial addresses, customer update with address
  replacement, customer delete), whatever order the driver gives the unchained
  statements, each customer row reads \<open>has_multiple_addresses\<close> true
  exactly when the customer's live address count is greater than 1 and
  \<open>only_one_address\<close> true exactly when it is 1 (so both are false at count 0), and the
  two flags are never both true.
\<close>

theorem flags_match_live_count:
  assumes "reachable s" and "c \<in> set (customers s)"
  shows "has_multiple_addresses c = (1 < address_count (c_id c) s) \<and>
         only_one_address c = (address_count (c_id c) s = 1) \<and>
         \<not> (has_multiple_addresses c \<and> only_one_address c)"
proof -
  from reachable_inv [OF assms(1)] have "flags_ok s" by simp
  with assms(2) have
    "has_multiple_addresses c = (1 < address_count (c_id c) s)"
    "only_one_address c = (address_count (c_id c) s = 1)"
    by (simp_all add: flags_ok_def)
  then show ?thesis by auto
qed

theorem flags_match_live_count_witness:
  "reachable db_ann2 \<and> ann_row \<in> set (customers db_ann2) \<and>
   address_count (c_id ann_row) db_ann2 = 2 \<and>
   has_multiple_addresses ann_row = (1 < address_count (c_id ann_row) db_ann2) \<and>
   only_one_address ann_row = (address_count (c_id ann_row) db_ann2 = 1) \<and>
   \<not> (has_multiple_addresses ann_row \<and> only_one_address ann_row)"
proof -
  have m: "ann_row \<in> set (customers db_ann2)"
    by (simp add: customers_db_ann2)
  have n: "address_count (c_id ann_row) db_ann2 = 2"
    by code_simp
  show ?thesis
    using flags_match_live_count [OF reachable_db_ann2 m] reachable_db_ann2 m n by simp
qed

text \<open>
  C3, as the code has it. For every customer, an update the handler accepts (status 200)
  leaves as that customer's addresses exactly the rows built from the supplied entries
  that bind all four \<^verbatim>\<open>NOT NULL\<close> columns (\<open>address_line1\<close>, \<open>city\<close>,
  \<open>state\<close>, \<open>pin_code\<close>), each as often as it was supplied (rows compared up to
  their ids, and as a multiset: in whatever order the driver ran the INSERTs). The
  addresses the customer had before are replaced, not merged, and none is left when the
  list is empty or absent. An entry that leaves one of the four columns null fails its
  INSERT, which the handler logs and skips. The addresses of other customers are not
  touched.
\<close>

theorem put_customer_replaces_addresses:
  assumes "status (fst (put_customer isEmail order now cid b s)) = 200"
    and "permutes order (supplied (addresses_in b))"
  shows "mset (map (\<lambda>a. a\<lparr>a_id := 0\<rparr>)
           (filter (\<lambda>a. customer_id a = cid)
              (addresses (snd (put_customer isEmail order now cid b s))))) =
         mset (map (address_row 0 now cid) (filter not_null (supplied (addresses_in b)))) \<and>
         filter (\<lambda>a. customer_id a \<noteq> cid)
           (addresses (snd (put_customer isEmail order now cid b s))) =
         filter (\<lambda>a. customer_id a \<noteq> cid) (addresses s)"
proof -
  have "mset (map (address_row 0 now cid) (filter not_null (order (supplied (addresses_in b))))) =
        mset (map (address_row 0 now cid) (filter not_null (supplied (addresses_in b))))"
    using assms(2) by (simp add: permutes_def)
  with put_customer_addresses [OF assms] show ?thesis by simp
qed

theorem put_customer_replaces_addresses_witness:
  "status (fst (put_customer has_at rev 5 1 ann_mixed db_two)) = 200 \<and>
   permutes rev (supplied (addresses_in ann_mixed)) \<and>
   map customer_id (addresses db_two) = [1, 1, 2] \<and>
   map (\<lambda>a. (customer_id a, address_line1 a, is_primary a))
     (addresses (snd (put_customer has_at rev 5 1 ann_mixed db_two))) =
     [(2, ''7 Pine Rd'', True), (1, ''12 Oak St'', True), (1, ''34 Elm Ave'', False)] \<and>
   mset (map (\<lambda>a. a\<lparr>a_id := 0\<rparr>)
     (filter (\<lambda>a. customer_id a = 1)
        (addresses (snd (put_customer has_at rev 5 1 ann_mixed db_two))))) =
     mset [address_row 0 5 1 elm_ave_secondary, address_row 0 5 1 oak_st]"
proof -
  have h: "status (fst (put_customer has_at rev 5 1 ann_mixed db_two)) = 200" by code_simp
  have p: "permutes rev (supplied (addresses_in ann_mixed))" by simp
  have e1: "map customer_id (addresses db_two) = [1, 1, 2]" by code_simp
  have e2: "map (\<lambda>a. (customer_id a, address_line1 a, is_primary a))
     (addresses (snd (put_customer has_at rev 5 1 ann_mixed db_two))) =
     [(2, ''7 Pine Rd'', True), (1, ''12 Oak St'', True), (1, ''34 Elm Ave'', False)]"
    by code_simp
  have e3: "filter not_null (supplied (addresses_in ann_mixed)) = [elm_ave_secondary, oak_st]"
    by code_simp
  from put_customer_replaces_addresses [OF h p] have
    "mset (map (\<lambda>a. a\<lparr>a_id := 0\<rparr>)
     (filter (\<lambda>a. customer_id a = 1)
        (addresses (snd (put_customer has_at rev 5 1 ann_mixed db_two))))) =
     mset [address_row 0 5 1 elm_ave_secondary, address_row 0 5 1 oak_st]"
    unfolding e3 by simp
  with h p e1 e2 show ?thesis by blast
qed

text \<open>
  C3 as stated fails: updating Ann with a list of one entry whose \<open>address_line1\<close> is
  null is accepted with 200, and she is left with no address, not with the supplied list.
\<close>

theorem put_customer_exact_list_counterexample:
  "status (fst (put_customer has_at as_issued 2 1 ann_null_line1 db_ann)) = 200 \<and>
   length (supplied (addresses_in ann_null_line1)) = 1 \<and>
   address_count 1 (snd (put_customer has_at as_issued 2 1 ann_null_line1 db_ann)) = 0"
  by code_simp

text \<open>
  C4 fails on the addresses. Deleting Ann, who owns one address, is answered 200 and a
  later get by her id is answered 404, but her address row is still in the table: the
  handler issues only \<^verbatim>\<open>DELETE FROM customers WHERE id = ?\<close> and relies on
  \<^verbatim>\<open>ON DELETE CASCADE\<close>, which the connection does not enforce
  (\<open>reachable_foreign_keys_off\<close>, \<open>delete_customer_without_enforcement\<close>); with
  enforcement on, no address of the customer would remain
  (\<open>delete_customer_with_enforcement\<close>).
\<close>

theorem delete_customer_leaves_addresses:
  "map customer_id (addresses db_ann) = [1] \<and>
   fst (delete_customer 1 db_ann) = reply 200 ''Customer deleted successfully'' \<and>
   get_customer 1 (snd (delete_customer 1 db_ann)) = Inl (reply 404 ''Customer not found'') \<and>
   map customer_id (addresses (snd (delete_customer 1 db_ann))) = [1]"
  by code_simp

text \<open>
  C5 fails when the driver runs the INSERT before the clearing UPDATE. The handler
  issues \<^verbatim>\<open>UPDATE addresses SET is_primary = FALSE WHERE customer_id = ?\<close> and then the
  INSERT outside its callback, on a connection in parallel mode. Adding a second address
  with \<open>is_primary = true\<close> to Ann under that order is answered 201, and the UPDATE then
  clears the new row as well: neither address is primary, where the claim says the new
  one is the only primary. When the UPDATE runs first the claim holds
  (\<open>post_address_update_first_only_primary\<close>); when the INSERT runs first the
  customer is left with no primary address at all
  (\<open>post_address_insert_first_no_primary\<close>).
\<close>

theorem post_address_primary_cleared_after_insert:
  "primaries 1 db_ann = [1] \<and>
   fst (post_address InsertBeforeUpdate 2 elm_ave db_ann) =
     reply_id 201 ''Address created successfully'' 2 \<and>
   map (\<lambda>a. (a_id a, customer_id a, is_primary a))
     (addresses (snd (post_address InsertBeforeUpdate 2 elm_ave db_ann))) =
     [(1, 1, False), (2, 1, False)] \<and>
   primaries 1 (snd (post_address InsertBeforeUpdate 2 elm_ave db_ann)) = []"
  by code_simp

text \<open>
  C6. Creating a customer whose \<open>phone_number\<close> belongs to an existing customer is
  answered 400 and leaves the store unchanged (no customer or address row is inserted);
  for a body that passes the validators the answer is "Phone number already exists",
  whatever the email, so the phone check comes first and short-circuits. Likewise a
  supplied (non-empty) email that belongs to an existing customer is answered 400 with the
  store unchanged, and for a valid body whose phone is new the answer is
  "Email already exists".
\<close>

theorem post_customer_duplicate_rejected:
  "((\<exists>c\<in>set (customers s). c_phone_number c = toString (phone_number b)) \<longrightarrow>
      status (fst (post_customer isEmail order now b s)) = 400 \<and>
      snd (post_customer isEmail order now b s) = s \<and>
      (validateCustomer isEmail b = [] \<longrightarrow>
         fst (post_customer isEmail order now b s) = reply 400 ''Phone number already exists'')) \<and>
   (email_given (email b) \<and> (\<exists>c\<in>set (customers s). c_email c = email b) \<longrightarrow>
      status (fst (post_customer isEmail order now b s)) = 400 \<and>
      snd (post_customer isEmail order now b s) = s \<and>
      (validateCustomer isEmail b = [] \<and>
       \<not> (\<exists>c\<in>set (customers s). c_phone_number c = toString (phone_number b)) \<longrightarrow>
         fst (post_customer isEmail order now b s) = reply 400 ''Email already exists''))"
  by (simp add: post_customer_def reply_def)

theorem post_customer_duplicate_rejected_witness:
  "validateCustomer has_at ann = [] \<and>
   (\<exists>c\<in>set (customers db_ann). c_phone_number c = toString (phone_number ann)) \<and>
   email_given (email ann) \<and> (\<exists>c\<in>set (customers db_ann). c_email c = email ann) \<and>
   post_customer has_at as_issued 9 ann db_ann = (reply 400 ''Phone number already exists'', db_ann) \<and>
   validateCustomer has_at (ann\<lparr>phone_number := Some ''5550000000''\<rparr>) = [] \<and>
   \<not> (\<exists>c\<in>set (customers db_ann). c_phone_number c =
        toString (phone_number (ann\<lparr>phone_number := Some ''5550000000''\<rparr>))) \<and>
   post_customer has_at as_issued 9 (ann\<lparr>phone_number := Some ''5550000000''\<rparr>) db_ann =
     (reply 400 ''Email already exists'', db_ann)"
proof -
  have v1: "validateCustomer has_at ann = []" by code_simp
  have p1: "\<exists>c\<in>set (customers db_ann). c_phone_number c = toString (phone_number ann)"
    by code_simp
  have g1: "email_given (email ann)" by code_simp
  have m1: "\<exists>c\<in>set (customers db_ann). c_email c = email ann" by code_simp
  have v2: "validateCustomer has_at (ann\<lparr>phone_number := Some ''5550000000''\<rparr>) = []"
    by code_simp
  have p2: "\<not> (\<exists>c\<in>set (customers db_ann). c_phone_number c =
        toString (phone_number (ann\<lparr>phone_number := Some ''5550000000''\<rparr>)))"
    by code_simp
  have g2: "email_given (email (ann\<lparr>phone_number := Some ''5550000000''\<rparr>))" by code_simp
  have m2: "\<exists>c\<in>set (customers db_ann).
      c_email c = email (ann\<lparr>phone_number := Some ''5550000000''\<rparr>)" by code_simp
  have a: "post_customer has_at as_issued 9 ann db_ann = (reply 400 ''Phone number already exists'', db_ann)"
    using post_customer_duplicate_rejected [where s = db_ann and b = ann and isEmail = has_at and order = as_issued and now = 9] v1 p1
    by (simp add: prod_eq_iff)
  have b: "post_customer has_at as_issued 9 (ann\<lparr>phone_number := Some ''5550000000''\<rparr>) db_ann =
     (reply 400 ''Email already exists'', db_ann)"
    using post_customer_duplicate_rejected
      [where s = db_ann and b = "ann\<lparr>phone_number := Some ''5550000000''\<rparr>"
         and isEmail = has_at and order = as_issued and now = 9] v2 p2 g2 m2
    by (simp add: prod_eq_iff)
  from v1 p1 g1 m1 a v2 p2 b show ?thesis by blast
qed

text \<open>
  C7. Deleting an address (the current primary one included) leaves every remaining
  address row as it was, so no other address is promoted to primary. Creating an address
  whose \<open>is_primary\<close> is false or absent leaves every row that was in the table as it
  was, and updating an address with \<open>is_primary\<close> false or absent leaves every other
  row as it was.
\<close>

theorem non_primary_writes_touch_no_other_flag:
  "addresses (snd (delete_address aid s)) = filter (\<lambda>a. a_id a \<noteq> aid) (addresses s) \<and>
   (\<not> truthy (p_is_primary b) \<longrightarrow>
      take (length (addresses s)) (addresses (snd (post_address schedule now b s))) = addresses s) \<and>
   (\<not> truthy (p_is_primary b) \<longrightarrow>
      filter (\<lambda>a. a_id a \<noteq> aid) (addresses (snd (put_address now aid b s))) =
        filter (\<lambda>a. a_id a \<noteq> aid) (addresses s))"
proof (intro conjI impI)
  show "addresses (snd (delete_address aid s)) = filter (\<lambda>a. a_id a \<noteq> aid) (addresses s)"
  proof (cases "find (\<lambda>a. a_id a = aid) (addresses s)")
    case None
    then have "\<forall>a\<in>set (addresses s). a_id a \<noteq> aid" by (simp add: find_None_iff)
    then have "filter (\<lambda>a. a_id a \<noteq> aid) (addresses s) = addresses s" by simp
    with None show ?thesis by (simp add: delete_address_def)
  next
    case (Some row)
    then show ?thesis by (simp add: delete_address_def)
  qed
next
  assume np: "\<not> truthy (p_is_primary b)"
  show "take (length (addresses s)) (addresses (snd (post_address schedule now b s))) = addresses s"
  proof (cases "validateAddress b = [] \<and> customer_exists (p_customer_id b) s")
    case False
    then show ?thesis
      by (auto simp: post_address_def customer_exists_def split: option.splits)
  next
    case True
    then obtain cid where cid: "p_customer_id b = Some cid"
      by (auto simp: customer_exists_def split: option.splits)
    from True cid have ex: "customer_exists (Some cid) s" by simp
    have v: "validateAddress b = []" using True by simp
    have nf: "\<not> (truthy (p_is_primary b) \<and> schedule = InsertBeforeUpdate)"
      using np by simp
    from post_address_accepted [OF v cid ex nf, of now] np
    show ?thesis by simp
  qed
next
  assume np: "\<not> truthy (p_is_primary b)"
  show "filter (\<lambda>a. a_id a \<noteq> aid) (addresses (snd (put_address now aid b s))) =
        filter (\<lambda>a. a_id a \<noteq> aid) (addresses s)"
  proof (cases "validateAddress b = []")
    case False
    then show ?thesis by (simp add: put_address_def)
  next
    case True
    show ?thesis
    proof (cases "find (\<lambda>a. a_id a = aid) (addresses s)")
      case None
      with True show ?thesis by (simp add: put_address_def)
    next
      case (Some row)
      show ?thesis
      proof (cases "update_address now aid (sanitizeAddress b) s")
        case None
        with True Some np show ?thesis by (simp add: put_address_def Let_def)
      next
        case upd0: (Some r)
        obtain n s2 where r: "r = (n, s2)" by (cases r)
        note upd = upd0 [unfolded r]
        have "snd (put_address now aid b s) = s2 \<or>
              snd (put_address now aid b s) = updateCustomerAddressFlags (customer_id row) s2"
          using True Some upd np by (simp add: put_address_def Let_def)
        with update_address_others [OF upd] show ?thesis by auto
      qed
    qed
  qed
qed

theorem non_primary_writes_touch_no_other_flag_witness:
  "\<not> truthy (p_is_primary elm_ave_secondary) \<and>
   map (\<lambda>a. (a_id a, is_primary a)) (addresses db_ann2) = [(1, False), (2, True)] \<and>
   map (\<lambda>a. (a_id a, is_primary a)) (addresses (snd (delete_address 2 db_ann2))) =
     [(1, False)] \<and>
   map (\<lambda>a. (a_id a, is_primary a)) (addresses (snd (post_address UpdateBeforeInsert 3 elm_ave_secondary db_ann2))) =
     [(1, False), (2, True), (3, False)] \<and>
   addresses (snd (delete_address 2 db_ann2)) = filter (\<lambda>a. a_id a \<noteq> 2) (addresses db_ann2) \<and>
   take (length (addresses db_ann2)) (addresses (snd (post_address UpdateBeforeInsert 3 elm_ave_secondary db_ann2))) =
     addresses db_ann2 \<and>
   filter (\<lambda>a. a_id a \<noteq> 2) (addresses (snd (put_address 3 2 elm_ave_secondary db_ann2))) =
     filter (\<lambda>a. a_id a \<noteq> 2) (addresses db_ann2)"
proof -
  have h: "\<not> truthy (p_is_primary elm_ave_secondary)" by code_simp
  have e1: "map (\<lambda>a. (a_id a, is_primary a)) (addresses db_ann2) = [(1, False), (2, True)]"
    by code_simp
  have e2: "map (\<lambda>a. (a_id a, is_primary a)) (addresses (snd (delete_address 2 db_ann2))) =
     [(1, False)]" by code_simp
  have e3: "map (\<lambda>a. (a_id a, is_primary a))
     (addresses (snd (post_address UpdateBeforeInsert 3 elm_ave_secondary db_ann2))) =
     [(1, False), (2, True), (3, False)]" by code_simp
  from non_primary_writes_touch_no_other_flag
    [where aid = 2 and s = db_ann2 and b = elm_ave_secondary and schedule = UpdateBeforeInsert
       and now = 3] h e1 e2 e3
  show ?thesis by blast
qed

text \<open>
  C8. The flag recompute is idempotent: for every store and customer id, running
  \<^verbatim>\<open>updateCustomerAddressFlags\<close> twice in a row leaves the same store as running it
  once; the same holds of \<^verbatim>\<open>updateAddressFlags\<close>, the copy in customers.js.
\<close>

theorem recompute_flags_idempotent:
  "updateCustomerAddressFlags cid (updateCustomerAddressFlags cid s) =
     updateCustomerAddressFlags cid s \<and>
   updateAddressFlags cid (updateAddressFlags cid s) = updateAddressFlags cid s"
  by (simp add: updateCustomerAddressFlags_def updateAddressFlags_def address_count_def o_def
      cong: if_cong)

text \<open>
  C9. For every address that exists (in a store whose primary keys are distinct, as the
  tables' \<^verbatim>\<open>PRIMARY KEY\<close> constraints enforce and every reachable store satisfies),
  the address update keeps the table's ids and the \<open>customer_id\<close> of every row, the
  updated one included: the owner is read from the existing row and no statement of the
  handler assigns it. No address row of another customer changes, no customer row other
  than the owner's changes, and a customer row differs from before at most in the two
  derived flags. This holds whatever the outcome of the request.
\<close>

theorem put_address_keeps_owner_and_frame:
  assumes "pk_ok s" and "find (\<lambda>a. a_id a = aid) (addresses s) = Some row"
  shows "map a_id (addresses (snd (put_address now aid b s))) = map a_id (addresses s) \<and>
     map customer_id (addresses (snd (put_address now aid b s))) =
       map customer_id (addresses s) \<and>
     filter (\<lambda>a. customer_id a \<noteq> customer_id row) (addresses (snd (put_address now aid b s))) =
       filter (\<lambda>a. customer_id a \<noteq> customer_id row) (addresses s) \<and>
     filter (\<lambda>c. c_id c \<noteq> customer_id row) (customers (snd (put_address now aid b s))) =
       filter (\<lambda>c. c_id c \<noteq> customer_id row) (customers s) \<and>
     map (\<lambda>c. c\<lparr>has_multiple_addresses := False, only_one_address := False\<rparr>)
         (customers (snd (put_address now aid b s))) =
       map (\<lambda>c. c\<lparr>has_multiple_addresses := False, only_one_address := False\<rparr>)
         (customers s)"
  using assms(1) put_address_frame_aux [OF _ assms(2)] by (simp add: pk_ok_def)

theorem put_address_keeps_owner_and_frame_witness:
  "pk_ok db_two \<and>
   find (\<lambda>a. a_id a = 2) (addresses db_two) = Some (address_row 2 2 1 elm_ave) \<and>
   map customer_id (addresses db_two) = [1, 1, 2] \<and>
   fst (put_address 4 2 elm_ave_secondary db_two) =
     reply_id 200 ''Address updated successfully'' 2 \<and>
   map customer_id (addresses (snd (put_address 4 2 elm_ave_secondary db_two))) = [1, 1, 2] \<and>
   filter (\<lambda>a. customer_id a \<noteq> 1) (addresses (snd (put_address 4 2 elm_ave_secondary db_two))) =
     filter (\<lambda>a. customer_id a \<noteq> 1) (addresses db_two) \<and>
   filter (\<lambda>c. c_id c \<noteq> 1) (customers (snd (put_address 4 2 elm_ave_secondary db_two))) =
     filter (\<lambda>c. c_id c \<noteq> 1) (customers db_two)"
proof -
  have h1: "pk_ok db_two" using reachable_inv [OF reachable_db_two] by simp
  have h2: "find (\<lambda>a. a_id a = 2) (addresses db_two) = Some (address_row 2 2 1 elm_ave)"
    by code_simp
  have e1: "map customer_id (addresses db_two) = [Suc 0, Suc 0, 2]" by code_simp
  have e2: "fst (put_address 4 2 elm_ave_secondary db_two) =
     reply_id 200 ''Address updated successfully'' 2" by code_simp
  have e3: "customer_id (address_row 2 2 (Suc 0) elm_ave) = Suc 0" by code_simp
  from put_address_keeps_owner_and_frame [OF h1 h2, of 4 elm_ave_secondary]
  show ?thesis using h1 h2 by (simp add: e1 e2 e3)
qed

text \<open>
  C10. Creating an address whose \<open>customer_id\<close> is absent from the body or matches no
  customer leaves the store unchanged, and a body that passes the validators is answered
  404 "Customer not found" (a body that fails them is answered 400 for the fields it
  fails). \<open>customer_id\<close> is not among the validated fields: the validators' verdict is
  the same whatever its value.
\<close>

theorem post_address_unknown_customer:
  assumes "\<not> customer_exists (p_customer_id b) s"
  shows "post_address schedule now b s =
           (if validateAddress b = [] then reply 404 ''Customer not found''
            else reply 400 ''Validation errors'', s) \<and>
         validateAddress (b\<lparr>p_customer_id := x\<rparr>) = validateAddress b"
  using assms
  by (auto simp: post_address_def validateAddress_def customer_exists_def split: option.splits)

theorem post_address_unknown_customer_witness:
  "\<not> customer_exists (p_customer_id (elm_ave\<lparr>p_customer_id := Some 7\<rparr>)) db_ann \<and>
   \<not> customer_exists (p_customer_id (elm_ave\<lparr>p_customer_id := None\<rparr>)) db_ann \<and>
   validateAddress (elm_ave\<lparr>p_customer_id := Some 7\<rparr>) = [] \<and>
   validateAddress (elm_ave\<lparr>p_customer_id := None\<rparr>) = [] \<and>
   post_address UpdateBeforeInsert 2 (elm_ave\<lparr>p_customer_id := Some 7\<rparr>) db_ann =
     (reply 404 ''Customer not found'', db_ann) \<and>
   post_address UpdateBeforeInsert 2 (elm_ave\<lparr>p_customer_id := None\<rparr>) db_ann =
     (reply 404 ''Customer not found'', db_ann)"
proof -
  have h1: "\<not> customer_exists (p_customer_id (elm_ave\<lparr>p_customer_id := Some 7\<rparr>)) db_ann"
    by code_simp
  have h2: "\<not> customer_exists (p_customer_id (elm_ave\<lparr>p_customer_id := None\<rparr>)) db_ann"
    by code_simp
  have v1: "validateAddress (elm_ave\<lparr>p_customer_id := Some 7\<rparr>) = []" by code_simp
  have v2: "validateAddress (elm_ave\<lparr>p_customer_id := None\<rparr>) = []" by code_simp
  from post_address_unknown_customer [OF h1, where schedule = UpdateBeforeInsert and now = 2]
    post_address_unknown_customer [OF h2, where schedule = UpdateBeforeInsert and now = 2]
  show ?thesis using h1 h2 v1 v2 by simp
qed

end
